theory Spec2Isabelle
  imports Main "HOL-Library.Word" "HOL-Library.Sublist"
begin

section \<open>Go values\<close>

text \<open>
  A Go \<open>uint64\<close> is a 64-bit word: \<open>+\<close> wraps around and \<open><\<close> compares the unsigned
  values. A Go \<open>error\<close> is a message; \<open>nil\<close> is \<open>None\<close>. A run of a Go function either
  returns or panics.
\<close>

type_synonym uint64 = "64 word"
type_synonym byte = "8 word"
type_synonym bytes = "byte list"

datatype go_error = errors_New string

datatype 'a outcome = Returns 'a | Panics string

text \<open>The verb \<open>%d\<close> (and \<open>%v\<close> on an unsigned integer) of package fmt: decimal digits.\<close>

definition digit_char :: "nat \<Rightarrow> char" where
  "digit_char n = ''0123456789'' ! n"

function decimal :: "nat \<Rightarrow> string" where
  "decimal n = (if n < 10 then [digit_char n] else decimal (n div 10) @ [digit_char (n mod 10)])"
  by pat_completeness auto
termination
  by (relation "measure id") auto

declare decimal.simps [simp del]

section \<open>The batch proposer (package l2)\<close>

subsection \<open>Blocks and the batch constants\<close>

text \<open>
  \<open>orm.BlockInfo\<close> is declared in package \<open>scroll-tech/database/orm\<close>. The fields are the
  ones \<open>tryProposeBatch\<close> reads; their types are fixed by the uses: each is added to or
  compared with a \<open>uint64\<close>, and \<open>ParentHash\<close> is passed as a \<open>string\<close>.
\<close>

record BlockInfo =
  Number :: uint64
  GasUsed :: uint64
  TxNum :: uint64
  BlockTimestamp :: uint64
  ParentHash :: string

definition batchTimeSec :: uint64 where
  "batchTimeSec = 5 * 60"

definition batchGasThreshold :: uint64 where
  "batchGasThreshold = 3000000"

definition batchBlocksLimit :: uint64 where
  "batchBlocksLimit = 100"

subsection \<open>The accumulation loop\<close>

text \<open>
  The four variables the loop of \<open>tryProposeBatch\<close> updates. \<open>accumulate\<close> is the loop
  \<open>for _, block := range blocks\<close>: it breaks at the first block with
  \<open>gasUsed+block.GasUsed > batchGasThreshold\<close>, the sum taken in \<open>uint64\<close>.
\<close>

record batch_acc =
  idsToBatch :: "uint64 list"
  blocksToBatch :: "BlockInfo list"
  txNum :: uint64
  gasUsed :: uint64

definition acc_init :: batch_acc where
  "acc_init = \<lparr>idsToBatch = [], blocksToBatch = [], txNum = 0, gasUsed = 0\<rparr>"

fun accumulate :: "batch_acc \<Rightarrow> BlockInfo list \<Rightarrow> batch_acc" where
  "accumulate a [] = a"
| "accumulate a (block # rest) =
     (if gasUsed a + GasUsed block > batchGasThreshold then a
      else accumulate
             \<lparr>idsToBatch = idsToBatch a @ [Number block],
              blocksToBatch = blocksToBatch a @ [block],
              txNum = txNum a + TxNum block,
              gasUsed = gasUsed a + GasUsed block\<rparr> rest)"

text \<open>The gas of a list of blocks as a natural number, with no wrap-around.\<close>

definition cum_gas :: "BlockInfo list \<Rightarrow> nat" where
  "cum_gas bs = sum_list (map (\<lambda>b. unat (GasUsed b)) bs)"

subsection \<open>The store\<close>

text \<open>
  Modelled from the spec: the persistence boundary (\<open>GetUnbatchedBlocks\<close>, \<open>Beginx\<close>,
  \<open>NewBatchInDBTx\<close>, \<open>SetBatchIDForBlocksInDBTx\<close>, \<open>Commit\<close>, \<open>Rollback\<close>) is package
  \<open>scroll-tech/database/orm\<close> over an SQL transaction, which is not among the sources.
  The spec describes it as an ordered relational store reached through a transactional
  handle: a write made through the handle is pending until \<open>Commit\<close> succeeds, which
  applies all pending writes at once; a failed \<open>Commit\<close> and a \<open>Rollback\<close> apply none.
  Which calls fail, and with what, is an input (\<open>store_env\<close>): the code is verified for
  every choice. A failing \<open>SetBatchIDForBlocksInDBTx\<close> may already have assigned some of
  the blocks inside the transaction (\<open>set_batch_id_partial\<close> of them).
\<close>

record Batch =
  batch_id :: string
  start_block :: BlockInfo
  end_block :: BlockInfo
  parent_hash :: string
  total_tx_num :: uint64
  total_gas_used :: uint64

text \<open>The committed state: the batch rows, and the batch id of each batched block number.\<close>

record store =
  batches :: "Batch list"
  batch_of_block :: "uint64 \<rightharpoonup> string"

datatype tx_write = InsertBatch Batch | AssignBatch "uint64 list" string

type_synonym db_tx = "tx_write list"

text \<open>What became of the transaction of one call.\<close>

datatype tx_fate = NotBegun | LeftOpen | Committed | RolledBack | RollbackFailed go_error

record store_env =
  unbatched_blocks :: "go_error + BlockInfo list"
  begin_error :: "go_error option"
  new_batch_result :: "go_error + string"
  set_batch_id_error :: "go_error option"
  set_batch_id_partial :: nat
  commit_error :: "go_error option"
  rollback_error :: "go_error option"
  time_now_unix :: uint64

definition GetUnbatchedBlocks :: "store_env \<Rightarrow> go_error + BlockInfo list" where
  "GetUnbatchedBlocks env = unbatched_blocks env"

definition Beginx :: "store_env \<Rightarrow> go_error + db_tx" where
  "Beginx env = (case begin_error env of Some e \<Rightarrow> Inl e | None \<Rightarrow> Inr [])"

definition NewBatchInDBTx ::
  "store_env \<Rightarrow> db_tx \<Rightarrow> BlockInfo \<Rightarrow> BlockInfo \<Rightarrow> string \<Rightarrow> uint64 \<Rightarrow> uint64
    \<Rightarrow> db_tx \<times> (go_error + string)" where
  "NewBatchInDBTx env dbTx startBlock endBlock parentHash txs gas =
     (case new_batch_result env of
        Inl e \<Rightarrow> (dbTx, Inl e)
      | Inr batchID \<Rightarrow>
          (dbTx @ [InsertBatch \<lparr>batch_id = batchID, start_block = startBlock,
                     end_block = endBlock, parent_hash = parentHash,
                     total_tx_num = txs, total_gas_used = gas\<rparr>],
           Inr batchID))"

definition SetBatchIDForBlocksInDBTx ::
  "store_env \<Rightarrow> db_tx \<Rightarrow> uint64 list \<Rightarrow> string \<Rightarrow> db_tx \<times> go_error option" where
  "SetBatchIDForBlocksInDBTx env dbTx blockIDs batchID =
     (case set_batch_id_error env of
        Some e \<Rightarrow> (dbTx @ [AssignBatch (take (set_batch_id_partial env) blockIDs) batchID], Some e)
      | None \<Rightarrow> (dbTx @ [AssignBatch blockIDs batchID], None))"

fun apply_write :: "store \<Rightarrow> tx_write \<Rightarrow> store" where
  "apply_write st (InsertBatch b) = st\<lparr>batches := batches st @ [b]\<rparr>"
| "apply_write st (AssignBatch ids batchID) =
     st\<lparr>batch_of_block := (\<lambda>n. if n \<in> set ids then Some batchID else batch_of_block st n)\<rparr>"

definition Commit :: "store_env \<Rightarrow> store \<Rightarrow> db_tx \<Rightarrow> store \<times> go_error option" where
  "Commit env st dbTx =
     (case commit_error env of
        Some e \<Rightarrow> (st, Some e)
      | None \<Rightarrow> (foldl apply_write st dbTx, None))"

definition Rollback :: "store_env \<Rightarrow> db_tx \<Rightarrow> go_error option" where
  "Rollback env dbTx = rollback_error env"

subsection \<open>createBatchForBlocks\<close>

text \<open>
  The result is the committed store after the call, what became of the transaction, and
  what the call returned. The deferred function runs on every exit after \<open>Beginx\<close>
  succeeded and calls \<open>Rollback\<close> when \<open>dbTxErr\<close> is not nil; an error of \<open>Rollback\<close> is
  logged and dropped (\<open>RollbackFailed\<close>). \<open>blocks[0]\<close> on an empty slice panics (with
  \<open>dbTxErr\<close> still nil, so the deferred function does nothing).
\<close>

definition deferred_rollback :: "store_env \<Rightarrow> db_tx \<Rightarrow> tx_fate" where
  "deferred_rollback env dbTx =
     (case Rollback env dbTx of None \<Rightarrow> RolledBack | Some err \<Rightarrow> RollbackFailed err)"

definition createBatchForBlocks ::
  "store_env \<Rightarrow> store \<Rightarrow> uint64 list \<Rightarrow> BlockInfo list \<Rightarrow> string \<Rightarrow> uint64 \<Rightarrow> uint64
    \<Rightarrow> store \<times> tx_fate \<times> go_error option outcome" where
  "createBatchForBlocks env st blockIDs blocks parentHash txs gas =
     (case Beginx env of
        Inl err \<Rightarrow> (st, NotBegun, Returns (Some err))
      | Inr dbTx \<Rightarrow>
          (case blocks of
             [] \<Rightarrow> (st, LeftOpen, Panics ''runtime error: index out of range [0] with length 0'')
           | startBlock # _ \<Rightarrow>
               (let endBlock = last blocks in
                case NewBatchInDBTx env dbTx startBlock endBlock parentHash txs gas of
                  (dbTx1, Inl dbTxErr) \<Rightarrow> (st, deferred_rollback env dbTx1, Returns (Some dbTxErr))
                | (dbTx1, Inr batchID) \<Rightarrow>
                    (case SetBatchIDForBlocksInDBTx env dbTx1 blockIDs batchID of
                       (dbTx2, Some dbTxErr) \<Rightarrow>
                         (st, deferred_rollback env dbTx2, Returns (Some dbTxErr))
                     | (dbTx2, None) \<Rightarrow>
                         (case Commit env st dbTx2 of
                            (st', Some dbTxErr) \<Rightarrow>
                              (st', deferred_rollback env dbTx2, Returns (Some dbTxErr))
                          | (st', None) \<Rightarrow> (st', Committed, Returns None))))))"

subsection \<open>tryProposeBatch\<close>

text \<open>
  \<open>uint64(time.Now().Unix())\<close> is \<open>time_now_unix\<close>, the clock's \<open>int64\<close> reading converted
  bit for bit. The mutex serialises calls and is not part of a single call's result.
\<close>

definition tryProposeBatch :: "store_env \<Rightarrow> store \<Rightarrow> store \<times> tx_fate \<times> go_error option outcome" where
  "tryProposeBatch env st =
     (case GetUnbatchedBlocks env of
        Inl err \<Rightarrow> (st, NotBegun, Returns (Some err))
      | Inr [] \<Rightarrow> (st, NotBegun, Returns None)
      | Inr (block0 # others) \<Rightarrow>
          (let blocks = block0 # others;
               a = accumulate acc_init blocks
           in if length (blocksToBatch a) = length blocks \<and> gasUsed a < batchGasThreshold \<and>
                 BlockTimestamp block0 + batchTimeSec > time_now_unix env
              then (st, NotBegun, Returns None)
              else (case blocksToBatch a of
                      [] \<Rightarrow> (st, NotBegun,
                             Panics (''gas overflow even for only 1 block. gas: '' @
                                     decimal (unat (GasUsed block0))))
                    | first # _ \<Rightarrow>
                        createBatchForBlocks env st (idsToBatch a) (blocksToBatch a)
                          (ParentHash first) (txNum a) (gasUsed a))))"

text \<open>
  The net effect of a committed batch on the store, and the error of the first store call
  that fails, in the order \<open>createBatchForBlocks\<close> makes the calls.
\<close>

definition with_batch :: "store \<Rightarrow> Batch \<Rightarrow> uint64 list \<Rightarrow> store" where
  "with_batch st b ids =
     st\<lparr>batches := batches st @ [b],
        batch_of_block := (\<lambda>n. if n \<in> set ids then Some (batch_id b) else batch_of_block st n)\<rparr>"

definition first_failure :: "store_env \<Rightarrow> go_error option" where
  "first_failure env =
     (case begin_error env of
        Some e \<Rightarrow> Some e
      | None \<Rightarrow>
          (case new_batch_result env of
             Inl e \<Rightarrow> Some e
           | Inr _ \<Rightarrow>
               (case set_batch_id_error env of
                  Some e \<Rightarrow> Some e
                | None \<Rightarrow> commit_error env)))"

fun rollback_called :: "tx_fate \<Rightarrow> bool" where
  "rollback_called RolledBack = True"
| "rollback_called (RollbackFailed _) = True"
| "rollback_called _ = False"

text \<open>The condition of the early \<open>return nil\<close> of \<open>tryProposeBatch\<close>, as the code tests it.\<close>

definition defers :: "store_env \<Rightarrow> BlockInfo list \<Rightarrow> bool" where
  "defers env blocks =
     (length (blocksToBatch (accumulate acc_init blocks)) = length blocks \<and>
      gasUsed (accumulate acc_init blocks) < batchGasThreshold \<and>
      BlockTimestamp (hd blocks) + batchTimeSec > time_now_unix env)"

text \<open>
  The clock's reading \<open>time.Now().Unix()\<close>, an \<open>int64\<close> counting seconds from the epoch, of
  which \<open>time_now_unix\<close> holds the bits.
\<close>

definition clock_now :: "store_env \<Rightarrow> int" where
  "clock_now env = sint (time_now_unix env)"

subsection \<open>Inputs for the examples\<close>

definition ok_env :: "BlockInfo list \<Rightarrow> uint64 \<Rightarrow> store_env" where
  "ok_env blocks now =
     \<lparr>unbatched_blocks = Inr blocks, begin_error = None, new_batch_result = Inr ''batch-1'',
      set_batch_id_error = None, set_batch_id_partial = 0, commit_error = None,
      rollback_error = None, time_now_unix = now\<rparr>"

definition failing_env :: store_env where
  "failing_env =
     \<lparr>unbatched_blocks = Inr [], begin_error = None, new_batch_result = Inr ''batch-1'',
      set_batch_id_error = Some (errors_New ''deadlock detected''), set_batch_id_partial = 1,
      commit_error = None, rollback_error = None, time_now_unix = 1200\<rparr>"

definition empty_store :: store where
  "empty_store = \<lparr>batches = [], batch_of_block = (\<lambda>_. None)\<rparr>"

definition example_blocks :: "BlockInfo list" where
  "example_blocks =
     [\<lparr>Number = 1, GasUsed = 1000000, TxNum = 10, BlockTimestamp = 1000, ParentHash = ''h0''\<rparr>,
      \<lparr>Number = 2, GasUsed = 1000000, TxNum = 20, BlockTimestamp = 1003, ParentHash = ''h1''\<rparr>,
      \<lparr>Number = 3, GasUsed = 1500000, TxNum = 30, BlockTimestamp = 1006, ParentHash = ''h2''\<rparr>,
      \<lparr>Number = 4, GasUsed = 500000, TxNum = 5, BlockTimestamp = 1009, ParentHash = ''h3''\<rparr>]"

text \<open>Blocks whose first two bring the gas to exactly the threshold.\<close>

definition boundary_blocks :: "BlockInfo list" where
  "boundary_blocks =
     [\<lparr>Number = 1, GasUsed = 1000000, TxNum = 10, BlockTimestamp = 1000, ParentHash = ''h0''\<rparr>,
      \<lparr>Number = 2, GasUsed = 2000000, TxNum = 20, BlockTimestamp = 1003, ParentHash = ''h1''\<rparr>,
      \<lparr>Number = 3, GasUsed = 1, TxNum = 1, BlockTimestamp = 1006, ParentHash = ''h2''\<rparr>]"

text \<open>Two blocks whose gas adds up to \<open>2 ^ 64\<close>: the \<open>uint64\<close> sum is 0.\<close>

definition wrapping_blocks :: "BlockInfo list" where
  "wrapping_blocks =
     [\<lparr>Number = 1, GasUsed = 1, TxNum = 1, BlockTimestamp = 1000, ParentHash = ''h0''\<rparr>,
      \<lparr>Number = 2, GasUsed = 18446744073709551615, TxNum = 1, BlockTimestamp = 1003,
        ParentHash = ''h1''\<rparr>]"

definition fresh_block :: BlockInfo where
  "fresh_block =
     \<lparr>Number = 7, GasUsed = 21000, TxNum = 1, BlockTimestamp = 1000, ParentHash = ''h6''\<rparr>"

definition oversized_block :: BlockInfo where
  "oversized_block =
     \<lparr>Number = 7, GasUsed = 3000001, TxNum = 1, BlockTimestamp = 1000, ParentHash = ''h6''\<rparr>"

text \<open>A block stamped \<open>2 ^ 64 - 1\<close>: adding \<open>batchTimeSec\<close> wraps to 299.\<close>

definition far_future_block :: BlockInfo where
  "far_future_block =
     \<lparr>Number = 7, GasUsed = 21000, TxNum = 1, BlockTimestamp = 18446744073709551615,
      ParentHash = ''h6''\<rparr>"

section \<open>The proof message protocol (package message)\<close>

subsection \<open>Data\<close>

text \<open>
  \<open>common.Hash\<close> is an array of 32 bytes; \<open>hash[:]\<close> is \<open>hash_bytes\<close>. \<open>ProofType\<close> is a
  \<open>uint8\<close> and \<open>RespStatus\<close> a \<open>uint32\<close>, with the constants of the source. A Go byte slice
  is the list of its bytes, a pointer that may be nil an \<open>option\<close>. The fields of
  \<open>ChunkProof\<close> that \<open>BatchProof\<close> has too carry the prefix \<open>ChunkProof\<close>.
\<close>

typedef Hash32 = "{bs :: byte list. length bs = 32}"
  morphisms hash_bytes BytesToHash
  by (rule exI [of _ "replicate 32 0"]) simp

type_synonym ProofType = "8 word"

definition ProofTypeUndefined :: ProofType where
  "ProofTypeUndefined = 0"

definition ProofTypeChunk :: ProofType where
  "ProofTypeChunk = 1"

definition ProofTypeBatch :: ProofType where
  "ProofTypeBatch = 2"

type_synonym RespStatus = "32 word"

definition StatusOk :: RespStatus where
  "StatusOk = 0"

definition StatusProofError :: RespStatus where
  "StatusProofError = 1"

record ChunkInfo =
  ChainID :: uint64
  PrevStateRoot :: Hash32
  PostStateRoot :: Hash32
  WithdrawRoot :: Hash32
  DataHash :: Hash32
  IsPadding :: bool
  TxBytes :: bytes

record SubCircuitRowUsage =
  Name :: string
  RowNumber :: uint64

record ChunkProof =
  StorageTrace :: bytes
  Protocol :: bytes
  ChunkProof_Proof :: bytes
  ChunkProof_Instances :: bytes
  ChunkProof_Vk :: bytes
  ChunkProof_ChunkInfo :: "ChunkInfo option"
  ChunkProof_GitVersion :: string
  RowUsages :: "SubCircuitRowUsage list"

record BatchProof =
  Proof :: bytes
  Instances :: bytes
  Vk :: bytes
  GitVersion :: string

record ProofDetail =
  ID :: string
  Type :: ProofType
  Status :: RespStatus
  ChunkProof :: "ChunkProof option"
  BatchProof :: "BatchProof option"
  Error :: string

record ProofMsg =
  ProofDetail :: "ProofDetail option"
  Signature :: string
  publicKey :: string

subsection \<open>The imported packages\<close>

text \<open>
  \<open>rlp\<close>, \<open>crypto\<close>, \<open>common\<close> and \<open>hexutil\<close> are packages of
  \<open>github.com/scroll-tech/go-ethereum\<close>, a dependency of the repository. The functions the
  code calls are the fields of a record; every theorem about \<open>Sign\<close>, \<open>Verify\<close>,
  \<open>PublicKey\<close> and \<open>Hash\<close> holds for every such record, under the stated contract if it
  has one. \<open>'priv\<close> is \<open>*ecdsa.PrivateKey\<close>, \<open>'pub\<close> is \<open>*ecdsa.PublicKey\<close>, and
  \<open>ecdsa_PublicKey\<close> is the field \<open>PublicKey\<close> of a private key.
\<close>

record ('priv, 'pub) go_ethereum =
  rlp_EncodeToBytes :: "ProofDetail option \<Rightarrow> go_error + bytes"
  crypto_Keccak256Hash :: "bytes \<Rightarrow> Hash32"
  crypto_Sign :: "bytes \<Rightarrow> 'priv \<Rightarrow> go_error + bytes"
  crypto_SigToPub :: "bytes \<Rightarrow> bytes \<Rightarrow> go_error + 'pub"
  crypto_CompressPubkey :: "'pub \<Rightarrow> bytes"
  crypto_VerifySignature :: "bytes \<Rightarrow> bytes \<Rightarrow> bytes \<Rightarrow> bool"
  common_FromHex :: "string \<Rightarrow> bytes"
  common_Bytes2Hex :: "bytes \<Rightarrow> string"
  hexutil_Encode :: "bytes \<Rightarrow> string"
  ecdsa_PublicKey :: "'priv \<Rightarrow> 'pub"

subsection \<open>Hash, Sign, Verify, PublicKey\<close>

definition ProofDetail_Hash ::
  "('priv, 'pub) go_ethereum \<Rightarrow> ProofDetail option \<Rightarrow> go_error + bytes" where
  "ProofDetail_Hash lib z =
     (case rlp_EncodeToBytes lib z of
        Inl err \<Rightarrow> Inl err
      | Inr byt \<Rightarrow> Inr (hash_bytes (crypto_Keccak256Hash lib byt)))"

text \<open>\<open>Sign\<close> returns the message as the call leaves it, and the error.\<close>

definition Sign ::
  "('priv, 'pub) go_ethereum \<Rightarrow> ProofMsg \<Rightarrow> 'priv \<Rightarrow> ProofMsg \<times> go_error option" where
  "Sign lib a priv =
     (case ProofDetail_Hash lib (ProofDetail a) of
        Inl err \<Rightarrow> (a, Some err)
      | Inr hash \<Rightarrow>
          (case crypto_Sign lib hash priv of
             Inl err \<Rightarrow> (a, Some err)
           | Inr sig \<Rightarrow> (a\<lparr>Signature := hexutil_Encode lib sig\<rparr>, None)))"

text \<open>
  \<open>Verify\<close> returns the message as the call leaves it (the cache \<open>publicKey\<close> may have
  been filled) and the pair it returns, or the panic. The slice expression
  \<open>sig[:len(sig)-1]\<close> panics when \<open>sig\<close> is empty and is \<open>butlast sig\<close> otherwise.
\<close>

definition Verify ::
  "('priv, 'pub) go_ethereum \<Rightarrow> ProofMsg \<Rightarrow> ProofMsg \<times> (bool \<times> go_error option) outcome" where
  "Verify lib a =
     (case ProofDetail_Hash lib (ProofDetail a) of
        Inl err \<Rightarrow> (a, Returns (False, Some err))
      | Inr hash \<Rightarrow>
          (let sig = common_FromHex lib (Signature a);
               recovered =
                 (if publicKey a = ''''
                  then (case crypto_SigToPub lib hash sig of
                          Inl err \<Rightarrow> Inl err
                        | Inr pk \<Rightarrow>
                            Inr (a\<lparr>publicKey :=
                                     common_Bytes2Hex lib (crypto_CompressPubkey lib pk)\<rparr>))
                  else Inr a)
           in case recovered of
                Inl err \<Rightarrow> (a, Returns (False, Some err))
              | Inr a' \<Rightarrow>
                  (if sig = []
                   then (a', Panics ''runtime error: slice bounds out of range [:-1]'')
                   else (a', Returns (crypto_VerifySignature lib
                                        (common_FromHex lib (publicKey a')) hash (butlast sig),
                                      None)))))"

definition PublicKey ::
  "('priv, 'pub) go_ethereum \<Rightarrow> ProofMsg \<Rightarrow> ProofMsg \<times> (string \<times> go_error option)" where
  "PublicKey lib a =
     (if publicKey a = ''''
      then (case ProofDetail_Hash lib (ProofDetail a) of
              Inl err \<Rightarrow> (a, ('''', Some err))
            | Inr hash \<Rightarrow>
                (case crypto_SigToPub lib hash (common_FromHex lib (Signature a)) of
                   Inl err \<Rightarrow> (a, ('''', Some err))
                 | Inr pk \<Rightarrow>
                     (a\<lparr>publicKey := common_Bytes2Hex lib (crypto_CompressPubkey lib pk)\<rparr>,
                      (common_Bytes2Hex lib (crypto_CompressPubkey lib pk), None))))
      else (a, (publicKey a, None)))"

subsection \<open>SanityCheck\<close>

text \<open>The receiver may be nil. \<open>fmt.Errorf\<close> with \<open>%d\<close> prints the length in decimal.\<close>

definition SanityCheck :: "BatchProof option \<Rightarrow> go_error option" where
  "SanityCheck ap =
     (case ap of
        None \<Rightarrow> Some (errors_New ''agg_proof is nil'')
      | Some p \<Rightarrow>
          if length (Proof p) = 0 then Some (errors_New ''proof not ready'')
          else if length (Proof p) mod 32 \<noteq> 0
          then Some (errors_New (''proof buffer has wrong length, expected: 32, got: '' @
                                 decimal (length (Proof p))))
          else None)"

subsection \<open>What the code relies on from the imported packages\<close>

text \<open>
  The hexadecimal helpers undo each other: \<open>common.FromHex\<close> decodes what
  \<open>hexutil.Encode\<close> (with the prefix 0x) and \<open>common.Bytes2Hex\<close> (without) produce.
\<close>

definition hex_contract :: "('priv, 'pub) go_ethereum \<Rightarrow> bool" where
  "hex_contract lib =
     ((\<forall>b. common_FromHex lib (hexutil_Encode lib b) = b) \<and>
      (\<forall>b. common_FromHex lib (common_Bytes2Hex lib b) = b))"

text \<open>
  \<open>crypto.Sign\<close> produces a 65-byte signature \<open>R || S || V\<close> from which \<open>crypto.SigToPub\<close>
  recovers the signer's public key, and whose first 64 bytes \<open>crypto.VerifySignature\<close>
  accepts for that key in compressed form.
\<close>

definition sign_contract :: "('priv, 'pub) go_ethereum \<Rightarrow> bool" where
  "sign_contract lib =
     (\<forall>hash priv sig.
        crypto_Sign lib hash priv = Inr sig \<longrightarrow>
          length sig = 65 \<and>
          crypto_SigToPub lib hash sig = Inr (ecdsa_PublicKey lib priv) \<and>
          crypto_VerifySignature lib (crypto_CompressPubkey lib (ecdsa_PublicKey lib priv))
            hash (take 64 sig))"

text \<open>
  The s-component of a signature is its bytes 32 to 63, big-endian; it is canonical (low)
  when at most half the order of the group of secp256k1.
\<close>

definition be_nat :: "bytes \<Rightarrow> nat" where
  "be_nat bs = foldl (\<lambda>n b. 256 * n + unat b) 0 bs"

definition secp256k1_N :: nat where
  "secp256k1_N = 115792089237316195423570985008687907852837564279074904382605163141518161494337"

definition low_s :: "bytes \<Rightarrow> bool" where
  "low_s sig = (be_nat (take 32 (drop 32 sig)) \<le> secp256k1_N div 2)"

text \<open>
  \<open>crypto.SigToPub\<close> succeeds on 65-byte signatures only, and the key it recovers is one
  for which \<open>crypto.VerifySignature\<close> accepts the signature's first 64 bytes, provided s is
  low (\<open>VerifySignature\<close> rejects the malleable high-s form).
\<close>

definition recover_contract :: "('priv, 'pub) go_ethereum \<Rightarrow> bool" where
  "recover_contract lib =
     (\<forall>hash sig pk.
        crypto_SigToPub lib hash sig = Inr pk \<longrightarrow>
          length sig = 65 \<and>
          (low_s sig \<longrightarrow>
             crypto_VerifySignature lib (crypto_CompressPubkey lib pk) hash (take 64 sig)))"

subsection \<open>An instance of the imported packages\<close>

text \<open>
  An instance of the record, to run the code on concrete messages and to show that the
  contracts can be met. The hexadecimal helpers are as Go's \<open>encoding/hex\<close> and
  go-ethereum's \<open>common\<close> and \<open>hexutil\<close> document them: \<open>hex.DecodeString\<close> returns the
  bytes decoded before the first malformed pair, \<open>Hex2Bytes\<close> drops its error, and
  \<open>FromHex\<close> strips a prefix 0x and pads an odd-length string with a leading 0. The
  serialisation, the digest and the signature scheme are stand-ins of the same shape as
  RLP, Keccak-256 and secp256k1 (a 32-byte digest; a 65-byte signature from which the
  public key is recovered) that meet the contracts above; the theorems about the code
  are proved for every instance, and this one serves the concrete runs.
\<close>

definition fromHexChar :: "char \<Rightarrow> nat option" where
  "fromHexChar c =
     (let n = (of_char c :: nat)
      in if 48 \<le> n \<and> n \<le> 57 then Some (n - 48)
         else if 97 \<le> n \<and> n \<le> 102 then Some (n - 87)
         else if 65 \<le> n \<and> n \<le> 70 then Some (n - 55)
         else None)"

fun hex_DecodeString :: "string \<Rightarrow> bytes" where
  "hex_DecodeString (p # q # rest) =
     (case fromHexChar p of
        None \<Rightarrow> []
      | Some a \<Rightarrow>
          (case fromHexChar q of
             None \<Rightarrow> []
           | Some b \<Rightarrow> word_of_nat (16 * a + b) # hex_DecodeString rest))"
| "hex_DecodeString _ = []"

definition hextable :: string where
  "hextable = ''0123456789abcdef''"

definition hex_EncodeToString :: "bytes \<Rightarrow> string" where
  "hex_EncodeToString bs =
     concat (map (\<lambda>b. [hextable ! (unat b div 16), hextable ! (unat b mod 16)]) bs)"

definition has0xPrefix :: "string \<Rightarrow> bool" where
  "has0xPrefix str =
     (length str \<ge> 2 \<and> str ! 0 = CHR ''0'' \<and> (str ! 1 = CHR ''x'' \<or> str ! 1 = CHR ''X''))"

definition Hex2Bytes :: "string \<Rightarrow> bytes" where
  "Hex2Bytes str = hex_DecodeString str"

definition FromHex :: "string \<Rightarrow> bytes" where
  "FromHex s =
     (let s1 = (if has0xPrefix s then drop 2 s else s);
          s2 = (if length s1 mod 2 = 1 then CHR ''0'' # s1 else s1)
      in Hex2Bytes s2)"

definition Bytes2Hex :: "bytes \<Rightarrow> string" where
  "Bytes2Hex d = hex_EncodeToString d"

definition Encode :: "bytes \<Rightarrow> string" where
  "Encode b = ''0x'' @ hex_EncodeToString b"

text \<open>A string is valid hex when, after an optional prefix 0x, it consists of hex digits.\<close>

definition valid_hex :: "string \<Rightarrow> bool" where
  "valid_hex s = list_all (\<lambda>c. fromHexChar c \<noteq> None) (if has0xPrefix s then drop 2 s else s)"

definition demo_rlp :: "ProofDetail option \<Rightarrow> go_error + bytes" where
  "demo_rlp z =
     (case z of
        None \<Rightarrow> Inr [192]
      | Some d \<Rightarrow> Inr (map (\<lambda>c. of_nat (of_char c)) (ID d) @ [Type d, ucast (Status d)]))"

definition demo_Keccak :: "bytes \<Rightarrow> Hash32" where
  "demo_Keccak byt = BytesToHash (take 32 (byt @ replicate 32 0))"

definition demo_s :: "bytes \<Rightarrow> bytes" where
  "demo_s hash = 0 # tl hash"

definition demo_Sign :: "bytes \<Rightarrow> bytes \<Rightarrow> go_error + bytes" where
  "demo_Sign hash priv =
     (if length hash = 32 \<and> length priv = 32 then Inr (rev priv @ demo_s hash @ [0])
      else Inl (errors_New ''invalid message or key length''))"

definition demo_SigToPub :: "bytes \<Rightarrow> bytes \<Rightarrow> go_error + bytes" where
  "demo_SigToPub hash sig =
     (if length hash = 32 \<and> length sig = 65 \<and> take 32 (drop 32 sig) = demo_s hash
      then Inr (take 32 sig)
      else Inl (errors_New ''recovery failed''))"

definition demo_CompressPubkey :: "bytes \<Rightarrow> bytes" where
  "demo_CompressPubkey pk = 2 # pk"

definition demo_VerifySignature :: "bytes \<Rightarrow> bytes \<Rightarrow> bytes \<Rightarrow> bool" where
  "demo_VerifySignature pubkey hash sig =
     (length hash = 32 \<and> length sig = 64 \<and> pubkey = 2 # take 32 sig \<and>
      drop 32 sig = demo_s hash)"

definition demo_lib :: "(bytes, bytes) go_ethereum" where
  "demo_lib =
     \<lparr>rlp_EncodeToBytes = demo_rlp, crypto_Keccak256Hash = demo_Keccak,
      crypto_Sign = demo_Sign, crypto_SigToPub = demo_SigToPub,
      crypto_CompressPubkey = demo_CompressPubkey,
      crypto_VerifySignature = demo_VerifySignature,
      common_FromHex = FromHex, common_Bytes2Hex = Bytes2Hex, hexutil_Encode = Encode,
      ecdsa_PublicKey = rev\<rparr>"

definition demo_detail :: ProofDetail where
  "demo_detail =
     \<lparr>ID = ''task-1'', Type = ProofTypeBatch, Status = StatusOk, ChunkProof = None,
      BatchProof = Some \<lparr>Proof = replicate 64 1, Instances = [], Vk = [], GitVersion = ''v1''\<rparr>,
      Error = ''''\<rparr>"

definition demo_priv :: bytes where
  "demo_priv = [1, 2, 3, 4, 5, 6, 7, 8, 9, 10, 11, 12, 13, 14, 15, 16,
                17, 18, 19, 20, 21, 22, 23, 24, 25, 26, 27, 28, 29, 30, 31, 32]"

text \<open>A message around a \<open>ProofDetail\<close>, not yet signed, and the same message signed.\<close>

definition new_msg :: "ProofDetail \<Rightarrow> ProofMsg" where
  "new_msg d = \<lparr>ProofDetail = Some d, Signature = '''', publicKey = ''''\<rparr>"

definition demo_signed :: ProofMsg where
  "demo_signed = fst (Sign demo_lib (new_msg demo_detail) demo_priv)"

text \<open>
  The signature \<open>Sign\<close> computes for the demo message, the message after one successful
  \<open>Verify\<close> (its cache filled), and an instance whose serialiser fails.
\<close>

definition demo_sig :: bytes where
  "demo_sig = rev demo_priv @ [0, 97, 115, 107, 45, 49, 2, 0] @ replicate 24 0 @ [0]"

definition demo_verified :: ProofMsg where
  "demo_verified = fst (Verify demo_lib demo_signed)"

definition failing_rlp_lib :: "(bytes, bytes) go_ethereum" where
  "failing_rlp_lib = demo_lib\<lparr>rlp_EncodeToBytes := (\<lambda>_. Inl (errors_New ''rlp: encoding failed''))\<rparr>"

subsection \<open>An RLP serialiser for the instance\<close>

text \<open>
  The serialisation of a \<open>ProofDetail\<close> as go-ethereum's package \<open>rlp\<close> documents it. A
  byte string is itself when it is one byte below 0x80, and else a header (0x80 plus the
  length, or 0xb7 plus the length of the length and the big-endian length from 56 bytes
  on) followed by the bytes; a list is a header (from 0xc0 and 0xf7 in the same way)
  followed by its items; an unsigned integer is the string of its big-endian bytes with
  no leading zero; a bool is 0x01 or 0x80; a byte array and a Go string are strings; a
  struct is the list of its fields in order; a slice of structs is a list; a nil pointer
  to a struct is the empty list 0xc0. A Go value of \<open>2 ^ 64\<close> bytes or more does not exist;
  \<open>RLP_EncodeToBytes\<close> reports an error there.
\<close>

function be_bytes :: "nat \<Rightarrow> bytes" where
  "be_bytes n = (if n = 0 then [] else be_bytes (n div 256) @ [word_of_nat (n mod 256)])"
  by pat_completeness auto
termination
  by (relation "measure id") auto

declare be_bytes.simps [simp del]

definition rlp_header :: "nat \<Rightarrow> nat \<Rightarrow> bytes" where
  "rlp_header base n =
     (if n < 56 then [word_of_nat (base + n)]
      else word_of_nat (base + 55 + length (be_bytes n)) # be_bytes n)"

definition rlp_string :: "bytes \<Rightarrow> bytes" where
  "rlp_string bs =
     (if length bs = 1 \<and> hd bs < 128 then bs else rlp_header 128 (length bs) @ bs)"

definition rlp_list :: "bytes \<Rightarrow> bytes" where
  "rlp_list payload = rlp_header 192 (length payload) @ payload"

definition rlp_uint :: "nat \<Rightarrow> bytes" where
  "rlp_uint n = rlp_string (be_bytes n)"

definition rlp_bool :: "bool \<Rightarrow> bytes" where
  "rlp_bool b = (if b then [1] else [128])"

definition string_bytes :: "string \<Rightarrow> bytes" where
  "string_bytes s = map (\<lambda>c. word_of_nat (of_char c)) s"

definition rlp_text :: "string \<Rightarrow> bytes" where
  "rlp_text s = rlp_string (string_bytes s)"

definition rlp_ptr :: "('a \<Rightarrow> bytes) \<Rightarrow> 'a option \<Rightarrow> bytes" where
  "rlp_ptr enc p = (case p of None \<Rightarrow> [192] | Some x \<Rightarrow> enc x)"

definition rlp_ChunkInfo :: "ChunkInfo \<Rightarrow> bytes" where
  "rlp_ChunkInfo c =
     rlp_list (rlp_uint (unat (ChainID c)) @
               rlp_string (hash_bytes (PrevStateRoot c)) @
               rlp_string (hash_bytes (PostStateRoot c)) @
               rlp_string (hash_bytes (WithdrawRoot c)) @
               rlp_string (hash_bytes (DataHash c)) @
               rlp_bool (IsPadding c) @
               rlp_string (TxBytes c))"

definition rlp_SubCircuitRowUsage :: "SubCircuitRowUsage \<Rightarrow> bytes" where
  "rlp_SubCircuitRowUsage u = rlp_list (rlp_text (Name u) @ rlp_uint (unat (RowNumber u)))"

definition rlp_ChunkProof :: "ChunkProof \<Rightarrow> bytes" where
  "rlp_ChunkProof p =
     rlp_list (rlp_string (StorageTrace p) @
               rlp_string (Protocol p) @
               rlp_string (ChunkProof_Proof p) @
               rlp_string (ChunkProof_Instances p) @
               rlp_string (ChunkProof_Vk p) @
               rlp_ptr rlp_ChunkInfo (ChunkProof_ChunkInfo p) @
               rlp_text (ChunkProof_GitVersion p) @
               rlp_list (concat (map rlp_SubCircuitRowUsage (RowUsages p))))"

definition rlp_BatchProof :: "BatchProof \<Rightarrow> bytes" where
  "rlp_BatchProof p =
     rlp_list (rlp_string (Proof p) @ rlp_string (Instances p) @ rlp_string (Vk p) @
               rlp_text (GitVersion p))"

definition rlp_ProofDetail :: "ProofDetail \<Rightarrow> bytes" where
  "rlp_ProofDetail d =
     rlp_list (rlp_text (ID d) @
               rlp_uint (unat (Type d)) @
               rlp_uint (unat (Status d)) @
               rlp_ptr rlp_ChunkProof (ChunkProof d) @
               rlp_ptr rlp_BatchProof (BatchProof d) @
               rlp_text (Error d))"

definition RLP_EncodeToBytes :: "ProofDetail option \<Rightarrow> go_error + bytes" where
  "RLP_EncodeToBytes z =
     (if length (rlp_ptr rlp_ProofDetail z) < 2 ^ 64 then Inr (rlp_ptr rlp_ProofDetail z)
      else Inl (errors_New ''rlp: value too large''))"

definition rlp_lib :: "(bytes, bytes) go_ethereum" where
  "rlp_lib = demo_lib\<lparr>rlp_EncodeToBytes := RLP_EncodeToBytes\<rparr>"

text \<open>A byte string that a Go slice can hold.\<close>

definition fits :: "bytes \<Rightarrow> bool" where
  "fits bs = (length bs < 2 ^ 64)"

text \<open>
  An encoder is self-delimiting when an encoding followed by anything determines both the
  value and what follows.
\<close>

definition self_delimiting :: "('a \<Rightarrow> bytes) \<Rightarrow> bool" where
  "self_delimiting e =
     (\<forall>x y r r'. e x @ r = e y @ r' \<and> fits (e x) \<and> fits (e y) \<longrightarrow> x = y \<and> r = r')"

text \<open>Two encoders one after the other, as the fields of a struct are.\<close>

definition seq :: "('a \<Rightarrow> bytes) \<Rightarrow> ('b \<Rightarrow> bytes) \<Rightarrow> 'a \<times> 'b \<Rightarrow> bytes" where
  "seq e1 e2 p = e1 (fst p) @ e2 (snd p)"

text \<open>
  The serialisation of the demo \<open>ProofDetail\<close>, and three variants of it: another \<open>ID\<close>,
  another first byte of the nested proof, and the last character of \<open>ID\<close> moved to \<open>Error\<close>.
\<close>

definition demo_rlp_bytes :: bytes where
  "demo_rlp_bytes =
     [248, 84, 134, 116, 97, 115, 107, 45, 49, 2, 128, 192, 248, 71, 184, 64] @ replicate 64 1 @
     [128, 128, 130, 118, 49, 128]"

definition renamed_detail :: ProofDetail where
  "renamed_detail = demo_detail\<lparr>ID := ''task-2''\<rparr>"

definition reproved_detail :: ProofDetail where
  "reproved_detail =
     demo_detail\<lparr>BatchProof :=
       Some \<lparr>Proof = 2 # replicate 63 1, Instances = [], Vk = [], GitVersion = ''v1''\<rparr>\<rparr>"

definition shifted_detail :: ProofDetail where
  "shifted_detail = demo_detail\<lparr>ID := ''task-'', Error := ''1''\<rparr>"

section \<open>Properties of the batch proposer\<close>

subsection \<open>Word arithmetic of the tests\<close>

lemma unat_batchGasThreshold: "unat batchGasThreshold = 3000000"
  by (simp add: batchGasThreshold_def)

lemma unat_batchTimeSec: "unat batchTimeSec = 300"
  by (simp add: batchTimeSec_def)

lemma gas_under_nat: "(g < batchGasThreshold) = (unat g < 3000000)"
  by (simp add: word_less_nat_alt unat_batchGasThreshold)

lemma gas_over_nat: "(g > batchGasThreshold) = (unat g > 3000000)"
  by (simp add: word_less_nat_alt unat_batchGasThreshold)

text \<open>While the running sum is within the threshold and the next block's gas leaves room
  for it below \<open>2 ^ 64\<close>, the \<open>uint64\<close> sum is the sum of the numbers.\<close>

lemma gas_test_nat:
  assumes "unat g \<le> 3000000" and "unat x + 3000000 < 2 ^ 64"
  shows "unat (g + x) = unat g + unat x"
    and "(g + x > batchGasThreshold) = (unat g + unat x > 3000000)"
proof -
  have "unat g + unat x < 2 ^ LENGTH(64)" using assms by simp
  then show s: "unat (g + x) = unat g + unat x"
    by (simp only: unat_add_lem [THEN iffD1])
  show "(g + x > batchGasThreshold) = (unat g + unat x > 3000000)"
    by (simp add: word_less_nat_alt s unat_batchGasThreshold)
qed

lemma age_test_nat:
  assumes "unat ts + 300 < 2 ^ 64"
  shows "(ts + batchTimeSec > now) = (unat now < unat ts + 300)"
proof -
  have "unat ts + unat batchTimeSec < 2 ^ LENGTH(64)"
    using assms by (simp add: unat_batchTimeSec)
  then have "unat (ts + batchTimeSec) = unat ts + unat batchTimeSec"
    by (simp only: unat_add_lem [THEN iffD1])
  then show ?thesis by (simp add: word_less_nat_alt unat_batchTimeSec)
qed

text \<open>A clock at or after the epoch reads the same as \<open>int64\<close> and as \<open>uint64\<close>.\<close>

lemma sint_nonneg_unat:
  fixes w :: "64 word"
  assumes "0 \<le> sint w"
  shows "sint w = int (unat w)"
proof -
  have s: "sint w = signed_take_bit 63 (uint w)" by (simp add: sint_uint)
  have small: "uint w < 2 ^ 63"
  proof (rule ccontr)
    assume "\<not> uint w < 2 ^ 63"
    then have "2 ^ 63 \<le> uint w" by simp
    then have "signed_take_bit 63 (uint w) \<le> uint w - 2 ^ Suc 63"
      by (rule signed_take_bit_int_less_eq)
    moreover have "(2::int) ^ Suc 63 = 18446744073709551616" by simp
    ultimately have le: "sint w \<le> uint w - 18446744073709551616"
      using s by linarith
    have "uint w < 2 ^ LENGTH(64)" by (rule uint_lt2p)
    then have "uint w < 18446744073709551616" by simp
    with le assms show False by linarith
  qed
  have "(0::int) \<le> uint w" by simp
  moreover have "- (2 ^ 63) \<le> (0::int)" by simp
  ultimately have "- (2 ^ 63) \<le> uint w" by (rule order_trans [rotated])
  then have "signed_take_bit 63 (uint w) = uint w"
    using small by (rule signed_take_bit_int_eq_self)
  then have "sint w = uint w" by (simp only: s)
  then show ?thesis by (simp only: uint_nat)
qed

lemma age_test_clock:
  assumes "unat ts + 300 < 2 ^ 64" and "0 \<le> sint now"
  shows "(ts + batchTimeSec > now) = (sint now - int (unat ts) < 300)"
proof -
  have "(ts + batchTimeSec > now) = (unat now < unat ts + 300)"
    by (rule age_test_nat [OF assms(1)])
  also have "\<dots> = (sint now - int (unat ts) < 300)"
    unfolding sint_nonneg_unat [OF assms(2)] by linarith
  finally show ?thesis .
qed

lemma cum_gas_Nil: "cum_gas [] = 0"
  by (simp add: cum_gas_def)

lemma cum_gas_Cons: "cum_gas (b # bs) = unat (GasUsed b) + cum_gas bs"
  by (simp add: cum_gas_def)

subsection \<open>The loop selects a prefix\<close>

lemma accumulate_shape:
  "\<exists>p. blocksToBatch (accumulate a rest) = blocksToBatch a @ p \<and> prefix p rest
       \<and> idsToBatch (accumulate a rest) = idsToBatch a @ map Number p"
proof (induction rest arbitrary: a)
  case Nil
  then show ?case by simp
next
  case (Cons block rest)
  show ?case
  proof (cases "gasUsed a + GasUsed block > batchGasThreshold")
    case True
    then show ?thesis by (intro exI [of _ "[]"]) simp
  next
    case False
    let ?a' = "\<lparr>idsToBatch = idsToBatch a @ [Number block],
              blocksToBatch = blocksToBatch a @ [block],
              txNum = txNum a + TxNum block,
              gasUsed = gasUsed a + GasUsed block\<rparr>"
    from Cons.IH [of ?a'] obtain p where
      "blocksToBatch (accumulate ?a' rest) = blocksToBatch ?a' @ p" "prefix p rest"
      "idsToBatch (accumulate ?a' rest) = idsToBatch ?a' @ map Number p"
      by blast
    with False show ?thesis by (intro exI [of _ "block # p"]) simp
  qed
qed

lemma accumulate_first:
  "(blocksToBatch (accumulate acc_init (b # bs)) = []) = (GasUsed b > batchGasThreshold)"
proof (cases "GasUsed b > batchGasThreshold")
  case True
  then show ?thesis by (simp add: acc_init_def)
next
  case False
  let ?a' = "\<lparr>idsToBatch = [] @ [Number b], blocksToBatch = [] @ [b],
              txNum = 0 + TxNum b, gasUsed = 0 + GasUsed b\<rparr>"
  obtain p where "blocksToBatch (accumulate ?a' bs) = blocksToBatch ?a' @ p"
    using accumulate_shape [of ?a' bs] by blast
  with False show ?thesis by (simp add: acc_init_def)
qed

lemma selected_hd:
  assumes "blocksToBatch (accumulate acc_init (b # bs)) \<noteq> []"
  shows "hd (blocksToBatch (accumulate acc_init (b # bs))) = b"
proof -
  obtain p where p: "blocksToBatch (accumulate acc_init (b # bs)) = blocksToBatch acc_init @ p"
      "prefix p (b # bs)"
    using accumulate_shape [of acc_init "b # bs"] by blast
  then have "blocksToBatch (accumulate acc_init (b # bs)) = p"
    by (simp add: acc_init_def del: accumulate.simps)
  with assms p(2) show ?thesis by (cases p) (auto simp del: accumulate.simps)
qed

text \<open>
  The invariant of the loop, for blocks whose gas cannot make the sum wrap: the blocks
  added are the longest prefix of the remaining blocks that fits under the threshold
  together with what was gathered before, and \<open>gasUsed\<close> is the true sum.
\<close>

lemma accumulate_prefix:
  assumes "\<forall>b\<in>set rest. unat (GasUsed b) + 3000000 < 2 ^ 64"
    and "unat (gasUsed a) \<le> 3000000"
  shows "\<exists>p. blocksToBatch (accumulate a rest) = blocksToBatch a @ p \<and> prefix p rest
     \<and> unat (gasUsed (accumulate a rest)) = unat (gasUsed a) + cum_gas p
     \<and> unat (gasUsed a) + cum_gas p \<le> 3000000
     \<and> (\<forall>q. prefix q rest \<and> unat (gasUsed a) + cum_gas q \<le> 3000000 \<longrightarrow> prefix q p)"
  using assms
proof (induction rest arbitrary: a)
  case Nil
  then show ?case by (simp add: cum_gas_Nil)
next
  case (Cons block rest)
  have bnd: "unat (GasUsed block) + 3000000 < 2 ^ 64" using Cons.prems(1) by simp
  note t = gas_test_nat [OF Cons.prems(2) bnd]
  show ?case
  proof (cases "unat (gasUsed a) + unat (GasUsed block) > 3000000")
    case True
    have "\<forall>q. prefix q (block # rest) \<and> unat (gasUsed a) + cum_gas q \<le> 3000000 \<longrightarrow> q = []"
    proof (intro allI impI)
      fix q assume q: "prefix q (block # rest) \<and> unat (gasUsed a) + cum_gas q \<le> 3000000"
      show "q = []"
      proof (cases q)
        case Nil
        then show ?thesis .
      next
        case (Cons x xs)
        with q have "x = block" by simp
        with q Cons True show ?thesis by (simp add: cum_gas_Cons)
      qed
    qed
    with True Cons.prems(2) show ?thesis
      by (intro exI [of _ "[]"]) (simp add: t cum_gas_Nil)
  next
    case False
    let ?a' = "\<lparr>idsToBatch = idsToBatch a @ [Number block],
              blocksToBatch = blocksToBatch a @ [block],
              txNum = txNum a + TxNum block,
              gasUsed = gasUsed a + GasUsed block\<rparr>"
    have le': "unat (gasUsed ?a') \<le> 3000000" using False by (simp add: t)
    have rest: "\<forall>b\<in>set rest. unat (GasUsed b) + 3000000 < 2 ^ 64" using Cons.prems(1) by simp
    from Cons.IH [OF rest le'] obtain p where
      p: "blocksToBatch (accumulate ?a' rest) = blocksToBatch ?a' @ p" "prefix p rest"
         "unat (gasUsed (accumulate ?a' rest)) = unat (gasUsed ?a') + cum_gas p"
         "unat (gasUsed ?a') + cum_gas p \<le> 3000000"
         "\<forall>q. prefix q rest \<and> unat (gasUsed ?a') + cum_gas q \<le> 3000000 \<longrightarrow> prefix q p"
      by blast
    have mx: "\<forall>q. prefix q (block # rest) \<and> unat (gasUsed a) + cum_gas q \<le> 3000000
                \<longrightarrow> prefix q (block # p)"
    proof (intro allI impI)
      fix q assume q: "prefix q (block # rest) \<and> unat (gasUsed a) + cum_gas q \<le> 3000000"
      show "prefix q (block # p)"
      proof (cases q)
        case Nil
        then show ?thesis by simp
      next
        case (Cons x xs)
        with q have x: "x = block" and xs: "prefix xs rest" by simp_all
        from q Cons x have "unat (gasUsed ?a') + cum_gas xs \<le> 3000000"
          by (simp add: cum_gas_Cons t(1))
        with p(5) xs have "prefix xs p" by blast
        with Cons x show ?thesis by simp
      qed
    qed
    show ?thesis
      apply (rule exI [of _ "block # p"])
      using p(1-4) mx False by (simp add: cum_gas_Cons t)
  qed
qed

text \<open>
  C4 (as amended). For every non-empty list of fetched blocks in which each block's gas
  used is at most \<open>2 ^ 64 - 1 - 3000000\<close> (so that the \<open>uint64\<close> running sum cannot wrap),
  the loop of \<open>tryProposeBatch\<close> selects exactly the maximal prefix whose cumulative gas is
  at most 3,000,000: the selection is a prefix, its gas fits, every prefix that fits is a
  prefix of it, and when a block is left out the selection together with the next block
  exceeds the threshold (so a block that brings the total to exactly 3,000,000 is taken).
  \<open>gasUsed\<close> is the selection's true gas and \<open>idsToBatch\<close> its block numbers.
\<close>

theorem C4_greedy_maximal_prefix:
  assumes "blocks \<noteq> []" and "\<forall>b\<in>set blocks. unat (GasUsed b) + 3000000 < 2 ^ 64"
  shows "prefix (blocksToBatch (accumulate acc_init blocks)) blocks
     \<and> cum_gas (blocksToBatch (accumulate acc_init blocks)) \<le> 3000000
     \<and> (\<forall>p. prefix p blocks \<and> cum_gas p \<le> 3000000
            \<longrightarrow> prefix p (blocksToBatch (accumulate acc_init blocks)))
     \<and> (blocksToBatch (accumulate acc_init blocks) \<noteq> blocks \<longrightarrow>
          3000000 < cum_gas (take (Suc (length (blocksToBatch (accumulate acc_init blocks)))) blocks))
     \<and> unat (gasUsed (accumulate acc_init blocks))
          = cum_gas (blocksToBatch (accumulate acc_init blocks))
     \<and> idsToBatch (accumulate acc_init blocks)
          = map Number (blocksToBatch (accumulate acc_init blocks))"
proof -
  let ?sel = "blocksToBatch (accumulate acc_init blocks)"
  have z: "unat (gasUsed acc_init) \<le> 3000000" by (simp add: acc_init_def)
  from accumulate_prefix [OF assms(2) z] obtain p where
    p: "?sel = blocksToBatch acc_init @ p" "prefix p blocks"
       "unat (gasUsed (accumulate acc_init blocks)) = unat (gasUsed acc_init) + cum_gas p"
       "unat (gasUsed acc_init) + cum_gas p \<le> 3000000"
       "\<forall>q. prefix q blocks \<and> unat (gasUsed acc_init) + cum_gas q \<le> 3000000 \<longrightarrow> prefix q p"
    by blast
  have sel: "?sel = p" using p(1) by (simp add: acc_init_def)
  have c1: "prefix ?sel blocks" using p(2) sel by simp
  have c2: "cum_gas ?sel \<le> 3000000" using p(4) sel by (simp add: acc_init_def)
  have c3: "\<forall>q. prefix q blocks \<and> cum_gas q \<le> 3000000 \<longrightarrow> prefix q ?sel"
    using p(5) sel by (simp add: acc_init_def)
  have c4: "?sel \<noteq> blocks \<longrightarrow> 3000000 < cum_gas (take (Suc (length ?sel)) blocks)"
  proof
    assume ne: "?sel \<noteq> blocks"
    have "length ?sel \<le> length blocks" using c1 by (rule prefix_length_le)
    moreover have "length ?sel \<noteq> length blocks"
    proof
      assume eq: "length ?sel = length blocks"
      from c1 obtain zs where zs: "blocks = ?sel @ zs" by (auto simp: prefix_def)
      then have "length blocks = length ?sel + length zs" by (metis length_append)
      with eq have "zs = []" by simp
      with zs ne show False by simp
    qed
    ultimately have lt: "length ?sel < length blocks" by simp
    show "3000000 < cum_gas (take (Suc (length ?sel)) blocks)"
    proof (rule ccontr)
      assume "\<not> 3000000 < cum_gas (take (Suc (length ?sel)) blocks)"
      then have "cum_gas (take (Suc (length ?sel)) blocks) \<le> 3000000" by simp
      moreover have "prefix (take (Suc (length ?sel)) blocks) blocks" by (rule take_is_prefix)
      ultimately have "prefix (take (Suc (length ?sel)) blocks) ?sel"
        using c3 by blast
      then have "length (take (Suc (length ?sel)) blocks) \<le> length ?sel"
        by (rule prefix_length_le)
      with lt show False by simp
    qed
  qed
  have c5: "unat (gasUsed (accumulate acc_init blocks)) = cum_gas ?sel"
    using p(3) sel by (simp add: acc_init_def)
  obtain r where "?sel = blocksToBatch acc_init @ r"
      "idsToBatch (accumulate acc_init blocks) = idsToBatch acc_init @ map Number r"
    using accumulate_shape [of acc_init blocks] by blast
  then have c6: "idsToBatch (accumulate acc_init blocks) = map Number ?sel"
    by (simp add: acc_init_def)
  from c1 c2 c3 c4 c5 c6 show ?thesis by blast
qed

text \<open>
  The theorem at the spec's example, gas usages [1000000, 1000000, 1500000, 500000]: the
  selection is exactly the first two blocks, with 2,000,000 gas. And at gas usages
  [1000000, 2000000, 1]: the second block brings the total to exactly 3,000,000 and is
  taken, the third is not.
\<close>

theorem C4_greedy_maximal_prefix_witness:
  "blocksToBatch (accumulate acc_init example_blocks) = take 2 example_blocks
   \<and> prefix (blocksToBatch (accumulate acc_init example_blocks)) example_blocks
   \<and> cum_gas (blocksToBatch (accumulate acc_init example_blocks)) \<le> 3000000
   \<and> unat (gasUsed (accumulate acc_init example_blocks)) = 2000000
   \<and> 3000000 < cum_gas (take 3 example_blocks)
   \<and> blocksToBatch (accumulate acc_init boundary_blocks) = take 2 boundary_blocks
   \<and> unat (gasUsed (accumulate acc_init boundary_blocks)) = 3000000"
proof -
  have ne: "example_blocks \<noteq> []" "boundary_blocks \<noteq> []"
    by (simp_all add: example_blocks_def boundary_blocks_def)
  have small: "\<forall>b\<in>set example_blocks. unat (GasUsed b) + 3000000 < 2 ^ 64"
      "\<forall>b\<in>set boundary_blocks. unat (GasUsed b) + 3000000 < 2 ^ 64"
    by (simp_all add: example_blocks_def boundary_blocks_def)
  have sel: "blocksToBatch (accumulate acc_init example_blocks) = take 2 example_blocks"
      "blocksToBatch (accumulate acc_init boundary_blocks) = take 2 boundary_blocks"
    by (simp_all add: example_blocks_def boundary_blocks_def acc_init_def batchGasThreshold_def)
  have gas: "cum_gas (take 2 example_blocks) = 2000000" "cum_gas (take 3 example_blocks) = 3500000"
      "cum_gas (take 2 boundary_blocks) = 3000000"
    by (simp_all add: example_blocks_def boundary_blocks_def cum_gas_def)
  from C4_greedy_maximal_prefix [OF ne(1) small(1)] C4_greedy_maximal_prefix [OF ne(2) small(2)]
    sel gas
  show ?thesis by simp
qed

text \<open>
  C4 as stated fails where the sum wraps: for blocks with gas 1 and \<open>2 ^ 64 - 1\<close> the loop
  computes \<open>1 + (2 ^ 64 - 1) = 0\<close> in \<open>uint64\<close>, takes both blocks, and the cumulative gas of
  the selection, \<open>2 ^ 64\<close>, exceeds the threshold; the maximal prefix that fits is the
  first block alone.
\<close>

theorem C4_wrapping_sum_counterexample:
  "blocksToBatch (accumulate acc_init wrapping_blocks) = wrapping_blocks
   \<and> cum_gas (blocksToBatch (accumulate acc_init wrapping_blocks)) = 18446744073709551616
   \<and> \<not> cum_gas (blocksToBatch (accumulate acc_init wrapping_blocks)) \<le> 3000000
   \<and> cum_gas (take 1 wrapping_blocks) \<le> 3000000
   \<and> gasUsed (accumulate acc_init wrapping_blocks) = 0"
proof -
  have sel: "accumulate acc_init wrapping_blocks =
      \<lparr>idsToBatch = [1, 2], blocksToBatch = wrapping_blocks, txNum = 2, gasUsed = 0\<rparr>"
    by (simp add: wrapping_blocks_def acc_init_def batchGasThreshold_def)
  have gas: "cum_gas wrapping_blocks = 18446744073709551616" "cum_gas (take 1 wrapping_blocks) = 1"
    by (simp_all add: wrapping_blocks_def cum_gas_def)
  from sel gas show ?thesis by simp
qed

subsection \<open>createBatchForBlocks\<close>

lemma rollback_called_deferred: "rollback_called (deferred_rollback env dbTx)"
  by (simp add: deferred_rollback_def split: option.split)

text \<open>
  The whole effect of a call on a non-empty block list: it returns the error of the first
  store call that failed, or nil; with an error the committed store is unchanged and, once
  the transaction was begun, \<open>Rollback\<close> has been called; with nil the transaction is
  committed and the store has gained the batch row and the batch id of every block.
\<close>

lemma createBatchForBlocks_effect:
  assumes "blocks \<noteq> []"
  shows "\<exists>st' fate r.
       createBatchForBlocks env st blockIDs blocks parentHash txs gas = (st', fate, Returns r)
     \<and> r = first_failure env
     \<and> (case r of
          None \<Rightarrow>
            fate = Committed \<and>
            (\<exists>batchID. new_batch_result env = Inr batchID \<and>
               st' = with_batch st
                       \<lparr>batch_id = batchID, start_block = hd blocks, end_block = last blocks,
                        parent_hash = parentHash, total_tx_num = txs, total_gas_used = gas\<rparr>
                       blockIDs)
        | Some err \<Rightarrow>
            st' = st \<and> (if begin_error env = None then rollback_called fate else fate = NotBegun))"
proof -
  from assms obtain b bs where blocks: "blocks = b # bs" by (cases blocks) auto
  show ?thesis
  proof (cases "begin_error env")
    case (Some e)
    then show ?thesis
      by (simp add: createBatchForBlocks_def Beginx_def first_failure_def)
  next
    case None
    note b = None
    show ?thesis
    proof (cases "new_batch_result env")
      case (Inl e)
      with b show ?thesis
        by (simp add: createBatchForBlocks_def Beginx_def first_failure_def blocks
            NewBatchInDBTx_def rollback_called_deferred)
    next
      case (Inr batchID)
      note n = Inr
      show ?thesis
      proof (cases "set_batch_id_error env")
        case (Some e)
        with b n show ?thesis
          by (simp add: createBatchForBlocks_def Beginx_def first_failure_def blocks
              NewBatchInDBTx_def SetBatchIDForBlocksInDBTx_def rollback_called_deferred)
      next
        case None
        note s = None
        show ?thesis
        proof (cases "commit_error env")
          case (Some e)
          with b n s show ?thesis
            by (simp add: createBatchForBlocks_def Beginx_def first_failure_def blocks
                NewBatchInDBTx_def SetBatchIDForBlocksInDBTx_def Commit_def
                rollback_called_deferred)
        next
          case None
          with b n s show ?thesis
            by (simp add: createBatchForBlocks_def Beginx_def first_failure_def blocks
                NewBatchInDBTx_def SetBatchIDForBlocksInDBTx_def Commit_def with_batch_def
                Let_def cong: if_cong)
        qed
      qed
    qed
  qed
qed

lemma createBatchForBlocks_returns:
  assumes "blocks \<noteq> []"
  shows "\<exists>st' fate r.
    createBatchForBlocks env st blockIDs blocks parentHash txs gas = (st', fate, Returns r)"
  using createBatchForBlocks_effect [OF assms] by blast

lemma createBatchForBlocks_store:
  "fst (createBatchForBlocks env st blockIDs blocks parentHash txs gas) = st \<or>
   (\<exists>b. fst (createBatchForBlocks env st blockIDs blocks parentHash txs gas)
          = with_batch st b blockIDs)"
proof (cases blocks)
  case Nil
  then show ?thesis
    by (simp add: createBatchForBlocks_def Beginx_def split: option.split)
next
  case (Cons b bs)
  then have "blocks \<noteq> []" by simp
  from createBatchForBlocks_effect [OF this, of env st blockIDs parentHash txs gas]
  show ?thesis by (auto split: option.splits)
qed

text \<open>
  C6. \<open>createBatchForBlocks\<close> is atomic over the store: after any call the committed store
  is what it was or has gained both the batch row and the assignments. Called with the
  non-empty prefix \<open>tryProposeBatch\<close> passes, it returns; it returns nil exactly when beginning the
  transaction, both writes and the commit all succeed, and then the batch row
  (\<open>NewBatchInDBTx\<close>) and the batch id of every block of the prefix
  (\<open>SetBatchIDForBlocksInDBTx\<close>) are committed together; when any of the four fails, that
  error is returned, the committed store is unchanged (no batch row without its
  assignments, no assignment without the row) and \<open>Rollback\<close> has been called on the
  transaction if one was begun.
\<close>

theorem C6_createBatchForBlocks_atomic:
  "(fst (createBatchForBlocks env st blockIDs blocks parentHash txs gas) = st \<or>
    (\<exists>b. fst (createBatchForBlocks env st blockIDs blocks parentHash txs gas)
           = with_batch st b blockIDs))
   \<and> (blocks \<noteq> [] \<longrightarrow>
       (\<exists>st' fate r.
          createBatchForBlocks env st blockIDs blocks parentHash txs gas = (st', fate, Returns r)
        \<and> r = first_failure env
        \<and> (case r of
             None \<Rightarrow>
               fate = Committed \<and>
               (\<exists>batchID. new_batch_result env = Inr batchID \<and>
                  st' = with_batch st
                          \<lparr>batch_id = batchID, start_block = hd blocks, end_block = last blocks,
                           parent_hash = parentHash, total_tx_num = txs, total_gas_used = gas\<rparr>
                          blockIDs)
           | Some err \<Rightarrow>
               st' = st \<and>
               (if begin_error env = None then rollback_called fate else fate = NotBegun))))"
  using createBatchForBlocks_store createBatchForBlocks_effect by blast

text \<open>
  The theorem at two runs on the same two blocks: every store call succeeds, and the batch
  row and both assignments are committed; \<open>SetBatchIDForBlocksInDBTx\<close> fails after
  assigning one block inside the transaction, and nothing is committed.
\<close>

theorem C6_createBatchForBlocks_atomic_witness:
  "createBatchForBlocks (ok_env [] 1200) empty_store [1, 2] (take 2 example_blocks) ''h0'' 30 2000000
     = (with_batch empty_store
          \<lparr>batch_id = ''batch-1'', start_block = example_blocks ! 0, end_block = example_blocks ! 1,
           parent_hash = ''h0'', total_tx_num = 30, total_gas_used = 2000000\<rparr> [1, 2],
        Committed, Returns None)
   \<and> createBatchForBlocks failing_env empty_store [1, 2] (take 2 example_blocks) ''h0'' 30 2000000
     = (empty_store, RolledBack, Returns (Some (errors_New ''deadlock detected'')))"
proof -
  have ne: "take 2 example_blocks \<noteq> []" by (simp add: example_blocks_def)
  have ok: "first_failure (ok_env [] 1200) = None"
      "new_batch_result (ok_env [] 1200) = Inr ''batch-1''"
    by (simp_all add: first_failure_def ok_env_def)
  have bad: "first_failure failing_env = Some (errors_New ''deadlock detected'')"
      "begin_error failing_env = None"
    by (simp_all add: first_failure_def failing_env_def)
  have ends: "hd (take 2 example_blocks) = example_blocks ! 0"
      "last (take 2 example_blocks) = example_blocks ! 1"
    by (simp_all add: example_blocks_def)
  from C6_createBatchForBlocks_atomic
    [of "ok_env [] 1200" empty_store "[1, 2]" "take 2 example_blocks" "''h0''" 30 2000000] ne
  have first: "createBatchForBlocks (ok_env [] 1200) empty_store [1, 2] (take 2 example_blocks)
      ''h0'' 30 2000000
     = (with_batch empty_store
          \<lparr>batch_id = ''batch-1'', start_block = example_blocks ! 0, end_block = example_blocks ! 1,
           parent_hash = ''h0'', total_tx_num = 30, total_gas_used = 2000000\<rparr> [1, 2],
        Committed, Returns None)"
    using ok ends by auto
  from C6_createBatchForBlocks_atomic
    [of failing_env empty_store "[1, 2]" "take 2 example_blocks" "''h0''" 30 2000000] ne
  obtain fate where second: "createBatchForBlocks failing_env empty_store [1, 2]
      (take 2 example_blocks) ''h0'' 30 2000000
     = (empty_store, fate, Returns (Some (errors_New ''deadlock detected'')))"
    using bad by auto
  have "fate = RolledBack"
    using second
    by (simp add: createBatchForBlocks_def Beginx_def NewBatchInDBTx_def
        SetBatchIDForBlocksInDBTx_def deferred_rollback_def Rollback_def example_blocks_def
        failing_env_def)
  with first second show ?thesis by simp
qed

subsection \<open>tryProposeBatch\<close>

lemma tryProposeBatch_fetched:
  assumes "GetUnbatchedBlocks env = Inr (b # bs)"
  shows "tryProposeBatch env st =
     (if defers env (b # bs) then (st, NotBegun, Returns None)
      else if blocksToBatch (accumulate acc_init (b # bs)) = []
      then (st, NotBegun,
            Panics (''gas overflow even for only 1 block. gas: '' @ decimal (unat (GasUsed b))))
      else createBatchForBlocks env st (idsToBatch (accumulate acc_init (b # bs)))
             (blocksToBatch (accumulate acc_init (b # bs)))
             (ParentHash (hd (blocksToBatch (accumulate acc_init (b # bs)))))
             (txNum (accumulate acc_init (b # bs))) (gasUsed (accumulate acc_init (b # bs))))"
  using assms unfolding tryProposeBatch_def defers_def Let_def
  by (simp split: list.split del: accumulate.simps)

text \<open>
  C7. For every non-empty fetched block list whose first (oldest) block's gas used alone
  exceeds 3,000,000, the loop selects no block and \<open>tryProposeBatch\<close> panics (with the
  message of the source) instead of returning, leaving the store as it was. The panic is
  reached exactly when the selection is empty while fetched blocks exist, which is exactly
  when the first block's gas exceeds the threshold; and with an empty selection the idle
  deferral test, which comes first, is false.
\<close>

theorem C7_oversized_first_block_panics:
  assumes "GetUnbatchedBlocks env = Inr (b # bs)"
  shows "(3000000 < unat (GasUsed b) \<longrightarrow>
            blocksToBatch (accumulate acc_init (b # bs)) = [] \<and>
            tryProposeBatch env st =
              (st, NotBegun,
               Panics (''gas overflow even for only 1 block. gas: '' @ decimal (unat (GasUsed b)))))
       \<and> ((\<exists>msg. snd (snd (tryProposeBatch env st)) = Panics msg)
            = (blocksToBatch (accumulate acc_init (b # bs)) = []))
       \<and> ((blocksToBatch (accumulate acc_init (b # bs)) = []) = (3000000 < unat (GasUsed b)))
       \<and> (blocksToBatch (accumulate acc_init (b # bs)) = [] \<longrightarrow> \<not> defers env (b # bs))"
proof -
  let ?sel = "blocksToBatch (accumulate acc_init (b # bs))"
  have first: "(?sel = []) = (3000000 < unat (GasUsed b))"
    by (simp add: accumulate_first gas_over_nat del: accumulate.simps)
  have nodefer: "?sel = [] \<longrightarrow> \<not> defers env (b # bs)"
    by (simp add: defers_def del: accumulate.simps)
  have panic: "?sel = [] \<longrightarrow> tryProposeBatch env st =
        (st, NotBegun,
         Panics (''gas overflow even for only 1 block. gas: '' @ decimal (unat (GasUsed b))))"
    using nodefer by (simp add: tryProposeBatch_fetched [OF assms] del: accumulate.simps)
  have iff: "(\<exists>msg. snd (snd (tryProposeBatch env st)) = Panics msg) = (?sel = [])"
  proof (cases "?sel = []")
    case True
    with panic show ?thesis by (simp del: accumulate.simps)
  next
    case False
    obtain st' fate r where
      "createBatchForBlocks env st (idsToBatch (accumulate acc_init (b # bs))) ?sel
         (ParentHash (hd ?sel)) (txNum (accumulate acc_init (b # bs)))
         (gasUsed (accumulate acc_init (b # bs))) = (st', fate, Returns r)"
      using createBatchForBlocks_returns [OF False] by blast
    with False show ?thesis
      by (simp add: tryProposeBatch_fetched [OF assms] del: accumulate.simps)
  qed
  from first nodefer panic iff show ?thesis by blast
qed

text \<open>The theorem at a single fetched block with 3,000,001 gas.\<close>

theorem C7_oversized_first_block_panics_witness:
  "GetUnbatchedBlocks (ok_env [oversized_block] 1200) = Inr [oversized_block]
   \<and> 3000000 < unat (GasUsed oversized_block)
   \<and> tryProposeBatch (ok_env [oversized_block] 1200) empty_store
       = (empty_store, NotBegun, Panics ''gas overflow even for only 1 block. gas: 3000001'')"
proof -
  have fetched: "GetUnbatchedBlocks (ok_env [oversized_block] 1200) = Inr [oversized_block]"
    by (simp add: GetUnbatchedBlocks_def ok_env_def)
  have big: "3000000 < unat (GasUsed oversized_block)"
    by (simp add: oversized_block_def)
  have msg: "decimal (unat (GasUsed oversized_block)) = ''3000001''"
    by (simp add: oversized_block_def decimal.simps digit_char_def)
  from C7_oversized_first_block_panics [OF fetched, of empty_store] big msg fetched
  show ?thesis by (simp del: accumulate.simps)
qed

text \<open>
  C5 (as amended). For every non-empty fetched block list in which each block's gas used
  is at most \<open>2 ^ 64 - 1 - 3000000\<close> and whose oldest block's timestamp is at most
  \<open>2 ^ 64 - 301\<close> (so that neither \<open>uint64\<close> sum can wrap), at a clock reading that is not
  negative: if the loop consumed every fetched block, the cumulative gas of the selection
  is strictly under 3,000,000 and the oldest block's timestamp is less than 300 seconds
  before the current time, then \<open>tryProposeBatch\<close> returns nil and creates no batch; in
  every other case with a non-empty selection it proposes the selection: it calls
  \<open>createBatchForBlocks\<close> with the selection, its block numbers, the oldest block's parent
  hash and the accumulated counts, \<open>gasUsed\<close> being the selection's cumulative gas.
\<close>

theorem C5_idle_deferral:
  assumes "GetUnbatchedBlocks env = Inr (b # bs)"
    and "\<forall>x\<in>set (b # bs). unat (GasUsed x) + 3000000 < 2 ^ 64"
    and "unat (BlockTimestamp b) + 300 < 2 ^ 64"
    and "0 \<le> clock_now env"
  shows "(length (blocksToBatch (accumulate acc_init (b # bs))) = length (b # bs) \<and>
          cum_gas (blocksToBatch (accumulate acc_init (b # bs))) < 3000000 \<and>
          clock_now env - int (unat (BlockTimestamp b)) < 300
          \<longrightarrow> tryProposeBatch env st = (st, NotBegun, Returns None))
       \<and> (\<not> (length (blocksToBatch (accumulate acc_init (b # bs))) = length (b # bs) \<and>
              cum_gas (blocksToBatch (accumulate acc_init (b # bs))) < 3000000 \<and>
              clock_now env - int (unat (BlockTimestamp b)) < 300) \<and>
          blocksToBatch (accumulate acc_init (b # bs)) \<noteq> []
          \<longrightarrow> tryProposeBatch env st =
                createBatchForBlocks env st
                  (map Number (blocksToBatch (accumulate acc_init (b # bs))))
                  (blocksToBatch (accumulate acc_init (b # bs)))
                  (ParentHash b)
                  (txNum (accumulate acc_init (b # bs)))
                  (gasUsed (accumulate acc_init (b # bs))))
       \<and> unat (gasUsed (accumulate acc_init (b # bs)))
           = cum_gas (blocksToBatch (accumulate acc_init (b # bs)))"
proof -
  let ?a = "accumulate acc_init (b # bs)"
  have z: "unat (gasUsed acc_init) \<le> 3000000" by (simp add: acc_init_def)
  from accumulate_prefix [OF assms(2) z] obtain p where
    p: "blocksToBatch ?a = blocksToBatch acc_init @ p"
       "unat (gasUsed ?a) = unat (gasUsed acc_init) + cum_gas p"
    by blast
  then have gas: "unat (gasUsed ?a) = cum_gas (blocksToBatch ?a)"
    by (simp add: acc_init_def del: accumulate.simps)
  have d: "defers env (b # bs) =
        (length (blocksToBatch ?a) = length (b # bs) \<and> cum_gas (blocksToBatch ?a) < 3000000 \<and>
         clock_now env - int (unat (BlockTimestamp b)) < 300)"
    using assms(4)
    by (simp add: defers_def gas_under_nat gas age_test_clock [OF assms(3)] clock_now_def
        del: accumulate.simps)
  obtain q where "blocksToBatch ?a = blocksToBatch acc_init @ q"
      "idsToBatch ?a = idsToBatch acc_init @ map Number q"
    using accumulate_shape [of acc_init "b # bs"] by blast
  then have ids: "idsToBatch ?a = map Number (blocksToBatch ?a)"
    by (simp add: acc_init_def del: accumulate.simps)
  show ?thesis
    using d gas
    by (simp add: tryProposeBatch_fetched [OF assms(1)] selected_hd ids del: accumulate.simps)
qed

text \<open>
  The theorem at a single block with 21,000 gas stamped 1000: at time 1200 the call is a
  no-op; at time 1300, once 300 seconds have elapsed, the same block is proposed and (every
  store call succeeding) committed as a batch.
\<close>

theorem C5_idle_deferral_witness:
  "tryProposeBatch (ok_env [fresh_block] 1200) empty_store = (empty_store, NotBegun, Returns None)
   \<and> tryProposeBatch (ok_env [fresh_block] 1300) empty_store
       = (with_batch empty_store
            \<lparr>batch_id = ''batch-1'', start_block = fresh_block, end_block = fresh_block,
             parent_hash = ''h6'', total_tx_num = 1, total_gas_used = 21000\<rparr> [7],
          Committed, Returns None)"
proof -
  have fetched: "GetUnbatchedBlocks (ok_env [fresh_block] now) = Inr [fresh_block]" for now
    by (simp add: GetUnbatchedBlocks_def ok_env_def)
  have small: "\<forall>x\<in>set [fresh_block]. unat (GasUsed x) + 3000000 < 2 ^ 64"
    by (simp add: fresh_block_def)
  have nowrap: "unat (BlockTimestamp fresh_block) + 300 < 2 ^ 64"
    by (simp add: fresh_block_def)
  have clock: "clock_now (ok_env [fresh_block] 1200) = 1200"
      "clock_now (ok_env [fresh_block] 1300) = 1300"
    by (simp_all add: clock_now_def ok_env_def)
  then have after_epoch: "0 \<le> clock_now (ok_env [fresh_block] 1200)"
      "0 \<le> clock_now (ok_env [fresh_block] 1300)"
    by simp_all
  have a: "accumulate acc_init [fresh_block] =
      \<lparr>idsToBatch = [7], blocksToBatch = [fresh_block], txNum = 1, gasUsed = 21000\<rparr>"
    by (simp add: fresh_block_def acc_init_def batchGasThreshold_def)
  have t: "unat (BlockTimestamp fresh_block) = 1000" "ParentHash fresh_block = ''h6''"
      "Number fresh_block = 7" "cum_gas [fresh_block] = 21000"
    by (simp_all add: fresh_block_def cum_gas_def)
  have early: "tryProposeBatch (ok_env [fresh_block] 1200) empty_store
      = (empty_store, NotBegun, Returns None)"
    using C5_idle_deferral [OF fetched small nowrap after_epoch(1), of empty_store]
    by (simp add: a t clock del: accumulate.simps)
  have late: "tryProposeBatch (ok_env [fresh_block] 1300) empty_store
      = createBatchForBlocks (ok_env [fresh_block] 1300) empty_store [7] [fresh_block] ''h6'' 1 21000"
    using C5_idle_deferral [OF fetched small nowrap after_epoch(2), of empty_store]
    by (simp add: a t clock del: accumulate.simps)
  have created: "createBatchForBlocks (ok_env [fresh_block] 1300) empty_store [7] [fresh_block]
        ''h6'' 1 21000
      = (with_batch empty_store
            \<lparr>batch_id = ''batch-1'', start_block = fresh_block, end_block = fresh_block,
             parent_hash = ''h6'', total_tx_num = 1, total_gas_used = 21000\<rparr> [7],
          Committed, Returns None)"
    by (simp add: createBatchForBlocks_def Beginx_def NewBatchInDBTx_def
        SetBatchIDForBlocksInDBTx_def Commit_def with_batch_def ok_env_def cong: if_cong)
  from early late created show ?thesis by simp
qed

text \<open>
  C5 as stated fails where a sum wraps or the clock is negative. A single fetched block
  with 21,000 gas stamped \<open>2 ^ 64 - 1\<close>, at time 1000: the loop consumed every block, the
  gas is under the threshold and the timestamp is less than 300 seconds before the current
  time (it lies after it), yet \<open>BlockTimestamp+batchTimeSec\<close> is 299 in \<open>uint64\<close>, the
  test fails, and the block is proposed and committed as a batch. Two fetched blocks with
  gas 1 and \<open>2 ^ 64 - 1\<close>, stamped 1000, at time 1200: the selection is both blocks and
  its cumulative gas, \<open>2 ^ 64\<close>, is not under the threshold, yet \<open>gasUsed\<close> is 0 and the call
  returns nil without proposing. A single block with 21,000 gas stamped 1000, at the clock
  reading -1: the timestamp is less than 300 seconds before the current time, yet
  \<open>uint64\<close> of the reading is \<open>2 ^ 64 - 1\<close>, the test fails, and the block is proposed.
\<close>

theorem C5_wrapping_counterexample:
  "GetUnbatchedBlocks (ok_env [far_future_block] 1000) = Inr [far_future_block]
   \<and> length (blocksToBatch (accumulate acc_init [far_future_block])) = length [far_future_block]
   \<and> cum_gas (blocksToBatch (accumulate acc_init [far_future_block])) < 3000000
   \<and> clock_now (ok_env [far_future_block] 1000) - int (unat (BlockTimestamp far_future_block)) < 300
   \<and> BlockTimestamp far_future_block + batchTimeSec = 299
   \<and> tryProposeBatch (ok_env [far_future_block] 1000) empty_store
       = (with_batch empty_store
            \<lparr>batch_id = ''batch-1'', start_block = far_future_block, end_block = far_future_block,
             parent_hash = ''h6'', total_tx_num = 1, total_gas_used = 21000\<rparr> [7],
          Committed, Returns None)
   \<and> GetUnbatchedBlocks (ok_env wrapping_blocks 1200) = Inr wrapping_blocks
   \<and> blocksToBatch (accumulate acc_init wrapping_blocks) = wrapping_blocks
   \<and> wrapping_blocks \<noteq> []
   \<and> \<not> cum_gas (blocksToBatch (accumulate acc_init wrapping_blocks)) < 3000000
   \<and> tryProposeBatch (ok_env wrapping_blocks 1200) empty_store
       = (empty_store, NotBegun, Returns None)
   \<and> GetUnbatchedBlocks (ok_env [fresh_block] 18446744073709551615) = Inr [fresh_block]
   \<and> clock_now (ok_env [fresh_block] 18446744073709551615) = - 1
   \<and> length (blocksToBatch (accumulate acc_init [fresh_block])) = length [fresh_block]
   \<and> cum_gas (blocksToBatch (accumulate acc_init [fresh_block])) < 3000000
   \<and> clock_now (ok_env [fresh_block] 18446744073709551615)
        - int (unat (BlockTimestamp fresh_block)) < 300
   \<and> tryProposeBatch (ok_env [fresh_block] 18446744073709551615) empty_store
       = (with_batch empty_store
            \<lparr>batch_id = ''batch-1'', start_block = fresh_block, end_block = fresh_block,
             parent_hash = ''h6'', total_tx_num = 1, total_gas_used = 21000\<rparr> [7],
          Committed, Returns None)"
proof -
  have stamp: "GetUnbatchedBlocks (ok_env [far_future_block] 1000) = Inr [far_future_block]
   \<and> length (blocksToBatch (accumulate acc_init [far_future_block])) = length [far_future_block]
   \<and> cum_gas (blocksToBatch (accumulate acc_init [far_future_block])) < 3000000
   \<and> clock_now (ok_env [far_future_block] 1000) - int (unat (BlockTimestamp far_future_block)) < 300
   \<and> BlockTimestamp far_future_block + batchTimeSec = 299
   \<and> tryProposeBatch (ok_env [far_future_block] 1000) empty_store
       = (with_batch empty_store
            \<lparr>batch_id = ''batch-1'', start_block = far_future_block, end_block = far_future_block,
             parent_hash = ''h6'', total_tx_num = 1, total_gas_used = 21000\<rparr> [7],
          Committed, Returns None)"
    by (simp add: tryProposeBatch_def GetUnbatchedBlocks_def ok_env_def far_future_block_def
        acc_init_def batchGasThreshold_def batchTimeSec_def createBatchForBlocks_def Beginx_def
        NewBatchInDBTx_def SetBatchIDForBlocksInDBTx_def Commit_def with_batch_def
        clock_now_def cum_gas_def cong: if_cong)
  have sel: "accumulate acc_init wrapping_blocks =
      \<lparr>idsToBatch = [1, 2], blocksToBatch = wrapping_blocks, txNum = 2, gasUsed = 0\<rparr>"
    by (simp add: wrapping_blocks_def acc_init_def batchGasThreshold_def)
  have total: "cum_gas wrapping_blocks = 18446744073709551616"
    by (simp add: wrapping_blocks_def cum_gas_def)
  have ne: "wrapping_blocks \<noteq> []" by (simp add: wrapping_blocks_def)
  have fetched: "GetUnbatchedBlocks (ok_env wrapping_blocks 1200) = Inr wrapping_blocks"
    by (simp add: GetUnbatchedBlocks_def ok_env_def)
  have deferred: "tryProposeBatch (ok_env wrapping_blocks 1200) empty_store
       = (empty_store, NotBegun, Returns None)"
    by (simp add: tryProposeBatch_def GetUnbatchedBlocks_def ok_env_def wrapping_blocks_def
        acc_init_def batchGasThreshold_def batchTimeSec_def)
  have clock: "GetUnbatchedBlocks (ok_env [fresh_block] 18446744073709551615) = Inr [fresh_block]
   \<and> clock_now (ok_env [fresh_block] 18446744073709551615) = - 1
   \<and> length (blocksToBatch (accumulate acc_init [fresh_block])) = length [fresh_block]
   \<and> cum_gas (blocksToBatch (accumulate acc_init [fresh_block])) < 3000000
   \<and> clock_now (ok_env [fresh_block] 18446744073709551615)
        - int (unat (BlockTimestamp fresh_block)) < 300
   \<and> tryProposeBatch (ok_env [fresh_block] 18446744073709551615) empty_store
       = (with_batch empty_store
            \<lparr>batch_id = ''batch-1'', start_block = fresh_block, end_block = fresh_block,
             parent_hash = ''h6'', total_tx_num = 1, total_gas_used = 21000\<rparr> [7],
          Committed, Returns None)"
    by (simp add: tryProposeBatch_def GetUnbatchedBlocks_def ok_env_def fresh_block_def
        acc_init_def batchGasThreshold_def batchTimeSec_def createBatchForBlocks_def Beginx_def
        NewBatchInDBTx_def SetBatchIDForBlocksInDBTx_def Commit_def with_batch_def
        clock_now_def cum_gas_def cong: if_cong)
  from stamp sel total ne fetched deferred clock show ?thesis by simp
qed

section \<open>Properties of the proof message protocol\<close>

subsection \<open>SanityCheck\<close>

text \<open>
  C9. \<open>BatchProof.SanityCheck\<close> returns an error, with the message of the source, when the
  receiver is nil, when \<open>Proof\<close> has length zero, and when the length of \<open>Proof\<close> is not a
  multiple of 32; for every \<open>BatchProof\<close> whose \<open>Proof\<close> is non-empty with a length that is
  a multiple of 32 it returns nil. No case panics: the function returns on every input.
\<close>

theorem C9_SanityCheck:
  "SanityCheck None = Some (errors_New ''agg_proof is nil'')
   \<and> (length (Proof p) = 0 \<longrightarrow> SanityCheck (Some p) = Some (errors_New ''proof not ready''))
   \<and> (length (Proof p) mod 32 \<noteq> 0 \<longrightarrow>
        SanityCheck (Some p) =
          Some (errors_New (''proof buffer has wrong length, expected: 32, got: '' @
                            decimal (length (Proof p)))))
   \<and> (length (Proof p) \<noteq> 0 \<and> length (Proof p) mod 32 = 0 \<longrightarrow> SanityCheck (Some p) = None)
   \<and> (SanityCheck ap = None) =
       (\<exists>q. ap = Some q \<and> length (Proof q) \<noteq> 0 \<and> length (Proof q) mod 32 = 0)"
  by (cases ap) (auto simp: SanityCheck_def)

text \<open>
  The theorem at a 64-byte proof, which is accepted, and at an empty and a 33-byte proof,
  which are rejected.
\<close>

theorem C9_SanityCheck_witness:
  "SanityCheck (Some \<lparr>Proof = replicate 64 1, Instances = [], Vk = [], GitVersion = ''v1''\<rparr>) = None
   \<and> SanityCheck (Some \<lparr>Proof = [], Instances = [], Vk = [], GitVersion = ''v1''\<rparr>)
       = Some (errors_New ''proof not ready'')
   \<and> SanityCheck (Some \<lparr>Proof = replicate 33 1, Instances = [], Vk = [], GitVersion = ''v1''\<rparr>)
       = Some (errors_New ''proof buffer has wrong length, expected: 32, got: 33'')"
proof -
  have d: "decimal 33 = ''33''"
    by (simp add: decimal.simps digit_char_def)
  from C9_SanityCheck [of "\<lparr>Proof = replicate 64 1, Instances = [], Vk = [], GitVersion = ''v1''\<rparr>"]
    C9_SanityCheck [of "\<lparr>Proof = [], Instances = [], Vk = [], GitVersion = ''v1''\<rparr>"]
    C9_SanityCheck [of "\<lparr>Proof = replicate 33 1, Instances = [], Vk = [], GitVersion = ''v1''\<rparr>"]
  show ?thesis by (simp add: d)
qed

subsection \<open>The hexadecimal helpers of the instance\<close>

lemma length_hash_bytes: "length (hash_bytes h) = 32"
  using hash_bytes [of h] by simp

lemma hash_bytes_BytesToHash: "length bs = 32 \<Longrightarrow> hash_bytes (BytesToHash bs) = bs"
  by (simp add: BytesToHash_inverse)

lemma fromHexChar_hextable: "k < 16 \<Longrightarrow> fromHexChar (hextable ! k) = Some k"
proof -
  assume "k < 16"
  then have "k = 0 \<or> k = 1 \<or> k = 2 \<or> k = 3 \<or> k = 4 \<or> k = 5 \<or> k = 6 \<or> k = 7 \<or> k = 8
      \<or> k = 9 \<or> k = 10 \<or> k = 11 \<or> k = 12 \<or> k = 13 \<or> k = 14 \<or> k = 15"
    by presburger
  then show ?thesis
    by (auto simp: hextable_def fromHexChar_def)
qed

lemma decode_encode_append:
  "hex_DecodeString (hex_EncodeToString bs @ rest) = bs @ hex_DecodeString rest"
proof (induction bs)
  case Nil
  then show ?case by (simp add: hex_EncodeToString_def)
next
  case (Cons b bs)
  have hi: "unat b div 16 < 16"
    using unsigned_less [of b, where 'a = nat] by simp
  have lo: "unat b mod 16 < 16" by simp
  have enc: "hex_EncodeToString (b # bs) =
      hextable ! (unat b div 16) # hextable ! (unat b mod 16) # hex_EncodeToString bs"
    by (simp add: hex_EncodeToString_def)
  show ?case
    using Cons.IH by (simp add: enc fromHexChar_hextable [OF hi] fromHexChar_hextable [OF lo])
qed

lemma decode_encode: "hex_DecodeString (hex_EncodeToString bs) = bs"
  using decode_encode_append [of bs "[]"] by simp

lemma length_encode: "length (hex_EncodeToString bs) = 2 * length bs"
  by (induction bs) (simp_all add: hex_EncodeToString_def)

lemma hextable_not_x: "k < 16 \<Longrightarrow> hextable ! k \<noteq> CHR ''x'' \<and> hextable ! k \<noteq> CHR ''X''"
proof -
  assume "k < 16"
  then have "k = 0 \<or> k = 1 \<or> k = 2 \<or> k = 3 \<or> k = 4 \<or> k = 5 \<or> k = 6 \<or> k = 7 \<or> k = 8
      \<or> k = 9 \<or> k = 10 \<or> k = 11 \<or> k = 12 \<or> k = 13 \<or> k = 14 \<or> k = 15"
    by presburger
  then show ?thesis
    by (auto simp: hextable_def)
qed

lemma no_prefix_encode: "\<not> has0xPrefix (hex_EncodeToString bs)"
proof (cases bs)
  case Nil
  then show ?thesis by (simp add: has0xPrefix_def hex_EncodeToString_def)
next
  case (Cons b bs')
  have lo: "unat b mod 16 < 16" by simp
  have "hex_EncodeToString bs ! 1 = hextable ! (unat b mod 16)"
    by (simp add: Cons hex_EncodeToString_def)
  with hextable_not_x [OF lo] show ?thesis by (simp add: has0xPrefix_def)
qed

lemma FromHex_Bytes2Hex: "FromHex (Bytes2Hex b) = b"
  by (simp add: FromHex_def Bytes2Hex_def no_prefix_encode length_encode Hex2Bytes_def decode_encode)

lemma prefix_Encode: "has0xPrefix (Encode b @ rest)"
  by (simp add: has0xPrefix_def Encode_def)

lemma FromHex_Encode: "FromHex (Encode b) = b"
  using prefix_Encode [of b "[]"]
  by (simp add: FromHex_def Encode_def length_encode Hex2Bytes_def decode_encode)

lemma FromHex_Encode_zz: "FromHex (Encode b @ ''zz'') = b"
  using prefix_Encode [of b "''zz''"]
  by (simp add: FromHex_def Encode_def length_encode Hex2Bytes_def decode_encode_append
      fromHexChar_def)

lemma FromHex_empty: "FromHex '''' = []" "FromHex ''zz'' = []"
  by (simp_all add: FromHex_def has0xPrefix_def Hex2Bytes_def fromHexChar_def)

lemma FromHex_short: "FromHex ''0x1234'' = [18, 52]" "FromHex ''0x12zz'' = [18]"
  by (simp_all add: FromHex_def has0xPrefix_def Hex2Bytes_def fromHexChar_def)

lemma demo_lib_fields:
  "common_FromHex demo_lib = FromHex" "common_Bytes2Hex demo_lib = Bytes2Hex"
  "hexutil_Encode demo_lib = Encode" "crypto_SigToPub demo_lib = demo_SigToPub"
  "crypto_CompressPubkey demo_lib = demo_CompressPubkey"
  "crypto_VerifySignature demo_lib = demo_VerifySignature"
  by (simp_all add: demo_lib_def)

lemma hex_contract_demo: "hex_contract demo_lib"
  by (simp add: hex_contract_def demo_lib_def FromHex_Encode FromHex_Bytes2Hex)

subsection \<open>The stand-in signature scheme meets the contracts\<close>

lemma sign_contract_demo: "sign_contract demo_lib"
  by (auto simp: sign_contract_def demo_lib_def demo_Sign_def demo_SigToPub_def
      demo_VerifySignature_def demo_CompressPubkey_def demo_s_def split: if_splits)

lemma recover_contract_demo: "recover_contract demo_lib"
  by (auto simp: recover_contract_def demo_lib_def demo_SigToPub_def
      demo_VerifySignature_def demo_CompressPubkey_def demo_s_def take_drop split: if_splits)

lemma be_nat_bound:
  "foldl (\<lambda>n b. 256 * n + unat (b :: byte)) k bs < 256 ^ length bs * (k + 1)"
proof (induction bs arbitrary: k)
  case Nil
  then show ?case by simp
next
  case (Cons b bs)
  have "unat b < 256" using unsigned_less [of b, where 'a = nat] by simp
  then have "256 * k + unat b + 1 \<le> 256 * (k + 1)" by simp
  then have "256 ^ length bs * (256 * k + unat b + 1) \<le> 256 ^ length bs * (256 * (k + 1))"
    by (rule mult_le_mono2)
  also have "\<dots> = 256 ^ length (b # bs) * (k + 1)" by (simp add: algebra_simps)
  finally have le: "256 ^ length bs * (256 * k + unat b + 1) \<le> 256 ^ length (b # bs) * (k + 1)" .
  have "foldl (\<lambda>n b. 256 * n + unat b) k (b # bs)
      = foldl (\<lambda>n b. 256 * n + unat b) (256 * k + unat b) bs" by simp
  also have "\<dots> < 256 ^ length bs * (256 * k + unat b + 1)"
    by (rule Cons.IH)
  also note le
  finally show ?case .
qed

lemma low_s_leading_zero:
  assumes "take 32 (drop 32 sig) = 0 # xs" and "length xs = 31"
  shows "low_s sig"
proof -
  have "be_nat (0 # xs) = foldl (\<lambda>n b. 256 * n + unat b) 0 xs"
    by (simp add: be_nat_def)
  also have "\<dots> < 256 ^ 31" using be_nat_bound [of 0 xs] assms(2) by simp
  finally show ?thesis by (simp add: low_s_def assms(1) secp256k1_N_def)
qed

subsection \<open>The demo message\<close>

lemma demo_Hash: "ProofDetail_Hash demo_lib (Some demo_detail)
    = Inr ([116, 97, 115, 107, 45, 49, 2, 0] @ replicate 24 0)"
  by (simp add: ProofDetail_Hash_def demo_lib_def demo_rlp_def demo_Keccak_def demo_detail_def
      hash_bytes_BytesToHash ProofTypeBatch_def StatusOk_def)

lemma demo_Sign_run:
  "Sign demo_lib \<lparr>ProofDetail = Some demo_detail, Signature = '''', publicKey = ''''\<rparr> demo_priv
     = (demo_signed, None)"
  "demo_signed = \<lparr>ProofDetail = Some demo_detail, Signature = Encode demo_sig, publicKey = ''''\<rparr>"
proof -
  have "Sign demo_lib (new_msg demo_detail) demo_priv
      = (\<lparr>ProofDetail = Some demo_detail, Signature = Encode demo_sig, publicKey = ''''\<rparr>, None)"
    by (simp add: Sign_def demo_Hash new_msg_def)
       (simp add: demo_lib_def demo_Sign_def demo_s_def demo_priv_def demo_sig_def)
  then show "Sign demo_lib \<lparr>ProofDetail = Some demo_detail, Signature = '''', publicKey = ''''\<rparr>
      demo_priv = (demo_signed, None)"
    and "demo_signed = \<lparr>ProofDetail = Some demo_detail, Signature = Encode demo_sig, publicKey = ''''\<rparr>"
    by (simp_all add: demo_signed_def new_msg_def)
qed

lemma demo_sig_facts: "length demo_sig = 65" "demo_sig \<noteq> []"
  "take 32 (drop 32 demo_sig) = [0, 97, 115, 107, 45, 49, 2, 0] @ replicate 24 0"
  "take 32 demo_sig = rev demo_priv"
  by (simp_all add: demo_sig_def demo_priv_def)

lemma demo_recover:
  "crypto_SigToPub demo_lib ([116, 97, 115, 107, 45, 49, 2, 0] @ replicate 24 0) demo_sig
     = Inr (rev demo_priv)"
  by (simp add: demo_lib_def demo_SigToPub_def demo_sig_facts demo_s_def)

lemma demo_low_s: "low_s demo_sig"
  by (rule low_s_leading_zero [of _ "[97, 115, 107, 45, 49, 2, 0] @ replicate 24 0"])
     (simp_all add: demo_sig_facts)

lemma demo_verified_eq:
  "demo_verified = \<lparr>ProofDetail = Some demo_detail, Signature = Encode demo_sig,
      publicKey = Bytes2Hex (2 # rev demo_priv)\<rparr>"
  by (simp add: demo_verified_def Verify_def demo_Sign_run(2) demo_Hash)
     (simp add: demo_lib_def FromHex_Encode demo_recover [unfolded demo_lib_def, simplified]
        demo_CompressPubkey_def demo_sig_facts)

lemma demo_key_nonempty: "Bytes2Hex (2 # bs) \<noteq> ''''"
  by (simp add: Bytes2Hex_def hex_EncodeToString_def)

subsection \<open>Hash\<close>

text \<open>Lengths and integers are written big-endian without leading zeros.\<close>

lemma be_nat_be_bytes: "be_nat (be_bytes n) = n"
proof (induction n rule: be_bytes.induct)
  case (1 n)
  show ?case
  proof (cases "n = 0")
    case True
    then show ?thesis by (simp add: be_bytes.simps be_nat_def)
  next
    case False
    have "unat (word_of_nat (n mod 256) :: byte) = n mod 256"
      by (simp add: unat_of_nat)
    with 1 False show ?thesis
      by (subst be_bytes.simps) (simp add: be_nat_def)
  qed
qed

lemma be_bytes_inj: "be_bytes n = be_bytes m \<Longrightarrow> n = m"
  by (metis be_nat_be_bytes)

lemma length_be_bytes: "n < 256 ^ k \<Longrightarrow> length (be_bytes n) \<le> k"
proof (induction n arbitrary: k rule: be_bytes.induct)
  case (1 n)
  show ?case
  proof (cases "n = 0")
    case True
    then show ?thesis by (simp add: be_bytes.simps)
  next
    case False
    with "1.prems" obtain j where k: "k = Suc j" by (cases k) auto
    with "1.prems" have "n div 256 < 256 ^ j"
      by (simp add: less_mult_imp_div_less mult.commute)
    with 1 False have "length (be_bytes (n div 256)) \<le> j" by blast
    with False k show ?thesis by (subst be_bytes.simps) simp
  qed
qed

lemma length_be_bytes_fits: "n < 2 ^ 64 \<Longrightarrow> length (be_bytes n) \<le> 8"
  using length_be_bytes [of n 8] by simp

lemma be_bytes_nonempty: "0 < n \<Longrightarrow> be_bytes n \<noteq> []"
  by (subst be_bytes.simps) simp

lemma byte_of_nat_inj:
  assumes "word_of_nat x = (word_of_nat y :: byte)" and "x < 256" and "y < 256"
  shows "x = y"
proof -
  have "unat (word_of_nat x :: byte) = unat (word_of_nat y :: byte)" using assms(1) by simp
  with assms(2,3) show ?thesis by (simp add: unat_of_nat)
qed

lemma rlp_header_sd:
  assumes eq: "rlp_header base n @ r = rlp_header base m @ r'"
    and n: "n < 2 ^ 64" and m: "m < 2 ^ 64" and base: "base = 128 \<or> base = 192"
  shows "n = m \<and> r = r'"
proof -
  let ?L = "\<lambda>k. length (be_bytes k)"
  have Ln: "?L n \<le> 8" and Lm: "?L m \<le> 8"
    using n m by (simp_all add: length_be_bytes_fits)
  have pos: "56 \<le> k \<Longrightarrow> 1 \<le> ?L k" for k
    using be_bytes_nonempty [of k] by (cases "be_bytes k") simp_all
  show ?thesis
  proof (cases "n < 56")
    case True
    note n56 = True
    show ?thesis
    proof (cases "m < 56")
      case True
      from eq n56 True have "word_of_nat (base + n) = (word_of_nat (base + m) :: byte)" and "r = r'"
        by (simp_all add: rlp_header_def)
      moreover have "base + n < 256" "base + m < 256" using base n56 True by auto
      ultimately show ?thesis using byte_of_nat_inj [of "base + n" "base + m"] by simp
    next
      case False
      from eq n56 False have "word_of_nat (base + n) = (word_of_nat (base + 55 + ?L m) :: byte)"
        by (simp add: rlp_header_def)
      moreover have "base + n < 256" "base + 55 + ?L m < 256" using base n56 Lm by auto
      ultimately have "base + n = base + 55 + ?L m"
        by (rule byte_of_nat_inj)
      with n56 pos [of m] False show ?thesis by simp
    qed
  next
    case False
    note n56 = False
    show ?thesis
    proof (cases "m < 56")
      case True
      from eq n56 True have "word_of_nat (base + 55 + ?L n) = (word_of_nat (base + m) :: byte)"
        by (simp add: rlp_header_def)
      moreover have "base + 55 + ?L n < 256" "base + m < 256" using base True Ln by auto
      ultimately have "base + 55 + ?L n = base + m"
        by (rule byte_of_nat_inj)
      with True pos [of n] n56 show ?thesis by simp
    next
      case False
      from eq n56 False have h: "word_of_nat (base + 55 + ?L n) = (word_of_nat (base + 55 + ?L m) :: byte)"
        and t: "be_bytes n @ r = be_bytes m @ r'"
        by (simp_all add: rlp_header_def)
      moreover have "base + 55 + ?L n < 256" "base + 55 + ?L m < 256" using base Ln Lm by auto
      ultimately have "base + 55 + ?L n = base + 55 + ?L m"
        using byte_of_nat_inj [of "base + 55 + ?L n" "base + 55 + ?L m"] by blast
      then have "?L n = ?L m" by simp
      with t have "be_bytes n = be_bytes m \<and> r = r'" by simp
      then show ?thesis using be_bytes_inj by blast
    qed
  qed
qed

text \<open>Byte strings: the header tells where the string ends.\<close>

lemma fits_append: "fits (a @ b) \<Longrightarrow> fits a \<and> fits b"
  by (simp add: fits_def)

lemma rlp_header_nonempty: "rlp_header base n \<noteq> []"
  by (simp add: rlp_header_def)

lemma length_le_rlp_string: "length bs \<le> length (rlp_string bs)"
  by (simp add: rlp_string_def)

lemma rlp_string_nonempty: "rlp_string bs \<noteq> []"
  by (cases bs) (simp_all add: rlp_string_def rlp_header_nonempty)

lemma hd_header_128:
  assumes "n < 2 ^ 64"
  shows "128 \<le> hd (rlp_header 128 n @ r)"
proof -
  have L: "length (be_bytes n) \<le> 8" using assms by (rule length_be_bytes_fits)
  define k where "k = (if n < 56 then 128 + n else 183 + length (be_bytes n))"
  have h: "hd (rlp_header 128 n @ r) = word_of_nat k"
    by (simp add: rlp_header_def k_def)
  have "k < 256" "128 \<le> k" using L by (auto simp: k_def)
  then have "unat (word_of_nat k :: byte) = k" by (simp add: unat_of_nat)
  with \<open>128 \<le> k\<close> show ?thesis
    unfolding h by (simp add: word_le_nat_alt)
qed

lemma rlp_string_single:
  assumes "x < 128"
  shows "rlp_string [x] = [x]"
  using assms by (simp add: rlp_string_def)

lemma rlp_string_general:
  assumes "\<not> (length bs = 1 \<and> hd bs < 128)"
  shows "rlp_string bs = rlp_header 128 (length bs) @ bs"
  unfolding rlp_string_def using assms by (simp only: if_False)

lemma single_vs_header:
  assumes "[x] @ r = rlp_header 128 n @ r'" and "x < 128" and "n < 2 ^ 64"
  shows False
proof -
  from assms(1) have "hd ([x] @ r) = hd (rlp_header 128 n @ r')" by (rule arg_cong)
  then have "x = hd (rlp_header 128 n @ r')" by simp
  with hd_header_128 [OF assms(3), of r'] assms(2) show False by simp
qed

lemma rlp_string_sd: "self_delimiting rlp_string"
  unfolding self_delimiting_def
proof (intro allI impI, elim conjE)
  fix a b :: bytes and r r'
  assume eq: "rlp_string a @ r = rlp_string b @ r'"
    and fa: "fits (rlp_string a)" and fb: "fits (rlp_string b)"
  have la: "length a < 2 ^ 64" and lb: "length b < 2 ^ 64"
    using fa fb length_le_rlp_string [of a] length_le_rlp_string [of b]
    by (simp_all add: fits_def)
  show "a = b \<and> r = r'"
  proof (cases "length a = 1 \<and> hd a < 128")
    case True
    then obtain x where a: "a = [x]" and x: "x < 128" by (cases a) auto
    show ?thesis
    proof (cases "length b = 1 \<and> hd b < 128")
      case True
      then obtain y where b: "b = [y]" and y: "y < 128" by (cases b) auto
      from eq show ?thesis
        by (simp add: a b rlp_string_single [OF x] rlp_string_single [OF y])
    next
      case False
      from eq have "[x] @ r = rlp_header 128 (length b) @ (b @ r')"
        by (simp add: a rlp_string_single [OF x] rlp_string_general [OF False])
      from single_vs_header [OF this x lb] show ?thesis ..
    qed
  next
    case False
    note na = False
    show ?thesis
    proof (cases "length b = 1 \<and> hd b < 128")
      case True
      then obtain y where b: "b = [y]" and y: "y < 128" by (cases b) auto
      from eq have "[y] @ r' = rlp_header 128 (length a) @ (a @ r)"
        by (simp add: b rlp_string_single [OF y] rlp_string_general [OF na])
      from single_vs_header [OF this y la] show ?thesis ..
    next
      case False
      from eq have "rlp_header 128 (length a) @ (a @ r) = rlp_header 128 (length b) @ (b @ r')"
        by (simp add: rlp_string_general [OF na] rlp_string_general [OF False])
      from rlp_header_sd [OF this la lb] have "length a = length b" and "a @ r = b @ r'"
        by simp_all
      then show ?thesis by simp
    qed
  qed
qed

text \<open>
  Self-delimiting encoders compose: in sequence as the fields of a struct, under a list
  header, behind a pointer, and repeated as the elements of a slice.
\<close>

lemma sd_map:
  assumes "self_delimiting e" and "\<And>x y. f x = f y \<Longrightarrow> x = y"
  shows "self_delimiting (\<lambda>x. e (f x))"
  using assms unfolding self_delimiting_def by blast

lemma sd_seq:
  assumes "self_delimiting e1" and "self_delimiting e2"
  shows "self_delimiting (seq e1 e2)"
  unfolding self_delimiting_def
proof (intro allI impI, elim conjE)
  fix x y :: "'a \<times> 'b" and r r'
  assume eq: "seq e1 e2 x @ r = seq e1 e2 y @ r'"
    and fx: "fits (seq e1 e2 x)" and fy: "fits (seq e1 e2 y)"
  from fx fy have f1: "fits (e1 (fst x))" "fits (e1 (fst y))"
    and f2: "fits (e2 (snd x))" "fits (e2 (snd y))"
    by (simp_all add: seq_def fits_def)
  from eq have "e1 (fst x) @ (e2 (snd x) @ r) = e1 (fst y) @ (e2 (snd y) @ r')"
    by (simp add: seq_def)
  with assms(1) f1 have a: "fst x = fst y" and rest: "e2 (snd x) @ r = e2 (snd y) @ r'"
    unfolding self_delimiting_def by blast+
  from assms(2) rest f2 have "snd x = snd y" and "r = r'"
    unfolding self_delimiting_def by blast+
  with a show "x = y \<and> r = r'" by (simp add: prod_eq_iff)
qed

lemma sd_list:
  assumes "\<And>x y. P x = P y \<Longrightarrow> fits (P x) \<Longrightarrow> fits (P y) \<Longrightarrow> x = y"
  shows "self_delimiting (\<lambda>x. rlp_list (P x))"
  unfolding self_delimiting_def
proof (intro allI impI, elim conjE)
  fix x y r r'
  assume eq: "rlp_list (P x) @ r = rlp_list (P y) @ r'"
    and fx: "fits (rlp_list (P x))" and fy: "fits (rlp_list (P y))"
  from fx fy have lx: "length (P x) < 2 ^ 64" and ly: "length (P y) < 2 ^ 64"
    by (simp_all add: rlp_list_def fits_def)
  from eq have "rlp_header 192 (length (P x)) @ (P x @ r) = rlp_header 192 (length (P y)) @ (P y @ r')"
    by (simp add: rlp_list_def)
  from rlp_header_sd [OF this lx ly] have "length (P x) = length (P y)" and "P x @ r = P y @ r'"
    by simp_all
  then have "P x = P y" and "r = r'" by simp_all
  with assms lx ly show "x = y \<and> r = r'" by (simp add: fits_def)
qed

lemma sd_inj:
  assumes "self_delimiting e" and "e x = e y" and "fits (e x)" and "fits (e y)"
  shows "x = y"
  using assms unfolding self_delimiting_def by (metis append_Nil2)

lemma sd_struct:
  assumes "self_delimiting P"
  shows "self_delimiting (\<lambda>x. rlp_list (P x))"
  by (rule sd_list) (rule sd_inj [OF assms])

lemma rlp_list_nonempty: "rlp_list p \<noteq> []"
  by (simp add: rlp_list_def rlp_header_nonempty)

lemma hd_rlp_list:
  assumes "fits (rlp_list p)" and "p \<noteq> []"
  shows "hd (rlp_list p) \<noteq> 192"
proof -
  let ?n = "length p"
  from assms(1) have n: "?n < 2 ^ 64" by (simp add: rlp_list_def fits_def)
  then have L: "length (be_bytes ?n) \<le> 8" by (rule length_be_bytes_fits)
  define k where "k = (if ?n < 56 then 192 + ?n else 247 + length (be_bytes ?n))"
  have h: "hd (rlp_list p) = word_of_nat k"
    by (simp add: rlp_list_def rlp_header_def k_def)
  from assms(2) have "0 < ?n" by simp
  then have "k < 256" "192 < k" using L by (auto simp: k_def)
  then have "unat (word_of_nat k :: byte) = k" by (simp add: unat_of_nat)
  with \<open>192 < k\<close> have "unat (word_of_nat k :: byte) \<noteq> unat (192 :: byte)" by simp
  then show ?thesis unfolding h by auto
qed

lemma sd_ptr:
  assumes "self_delimiting e"
    and "\<And>x. fits (e x) \<Longrightarrow> e x \<noteq> [] \<and> hd (e x) \<noteq> 192"
  shows "self_delimiting (rlp_ptr e)"
  unfolding self_delimiting_def
proof (intro allI impI, elim conjE)
  fix x y :: "'a option" and r r'
  assume eq: "rlp_ptr e x @ r = rlp_ptr e y @ r'"
    and fx: "fits (rlp_ptr e x)" and fy: "fits (rlp_ptr e y)"
  have clash: False if "[192] @ s = e v @ s'" and "fits (e v)" for v s s'
  proof -
    from assms(2) [OF that(2)] have ne: "e v \<noteq> []" and h: "hd (e v) \<noteq> 192" by simp_all
    from that(1) have "hd ([192] @ s) = hd (e v @ s')" by (rule arg_cong)
    with ne have "192 = hd (e v)" by simp
    with h show False by simp
  qed
  show "x = y \<and> r = r'"
  proof (cases x)
    case None
    note nx = None
    show ?thesis
    proof (cases y)
      case None
      with eq nx show ?thesis by (simp add: rlp_ptr_def)
    next
      case (Some v)
      with eq nx fy have "[192] @ r = e v @ r'" "fits (e v)" by (simp_all add: rlp_ptr_def)
      then show ?thesis using clash by blast
    qed
  next
    case (Some u)
    note sx = Some
    show ?thesis
    proof (cases y)
      case None
      with eq sx fx have "[192] @ r' = e u @ r" "fits (e u)" by (simp_all add: rlp_ptr_def)
      then show ?thesis using clash by blast
    next
      case (Some v)
      with eq sx fx fy have "e u @ r = e v @ r'" "fits (e u)" "fits (e v)"
        by (simp_all add: rlp_ptr_def)
      with assms(1) have "u = v \<and> r = r'" unfolding self_delimiting_def by blast
      with sx Some show ?thesis by simp
    qed
  qed
qed

lemma concat_map_inj:
  assumes "self_delimiting e" and "\<And>x. e x \<noteq> []"
  shows "concat (map e xs) = concat (map e ys) \<Longrightarrow> fits (concat (map e xs)) \<Longrightarrow>
         fits (concat (map e ys)) \<Longrightarrow> xs = ys"
proof (induction xs arbitrary: ys)
  case Nil
  then show ?case using assms(2) by (cases ys) auto
next
  case (Cons x xs)
  show ?case
  proof (cases ys)
    case Nil
    with Cons.prems(1) assms(2) show ?thesis by auto
  next
    case (Cons y ys')
    from Cons.prems(2,3) Cons have f: "fits (e x)" "fits (e y)"
      "fits (concat (map e xs))" "fits (concat (map e ys'))"
      by (simp_all add: fits_def)
    from Cons.prems(1) Cons have "e x @ concat (map e xs) = e y @ concat (map e ys')" by simp
    with assms(1) f(1,2) have "x = y" and "concat (map e xs) = concat (map e ys')"
      unfolding self_delimiting_def by blast+
    with Cons.IH [of ys'] f(3,4) Cons show ?thesis by simp
  qed
qed

lemma sd_slice:
  assumes "self_delimiting e" and "\<And>x. e x \<noteq> []"
  shows "self_delimiting (\<lambda>xs. rlp_list (concat (map e xs)))"
  by (rule sd_list) (rule concat_map_inj [OF assms])

text \<open>The encoders of the field types and of the structs of \<open>message.go\<close>.\<close>

lemma sd_uint: "self_delimiting rlp_uint"
  unfolding rlp_uint_def by (rule sd_map [OF rlp_string_sd]) (rule be_bytes_inj)

lemma sd_uint_word: "self_delimiting (\<lambda>w :: 'a::len word. rlp_uint (unat w))"
  by (rule sd_map [OF sd_uint]) (rule unsigned_word_eqI)

lemma string_bytes_inj: "string_bytes s = string_bytes t \<Longrightarrow> s = t"
proof -
  have "inj (\<lambda>c :: char. (word_of_nat (of_char c) :: byte))"
  proof (rule injI)
    fix c d :: char
    assume "(word_of_nat (of_char c) :: byte) = word_of_nat (of_char d)"
    moreover have "(of_char c :: nat) < 256" "(of_char d :: nat) < 256" by simp_all
    ultimately have "(of_char c :: nat) = of_char d" by (rule byte_of_nat_inj)
    then show "c = d" by simp
  qed
  then have "inj (map (\<lambda>c :: char. (word_of_nat (of_char c) :: byte)))" by (rule inj_mapI)
  moreover assume "string_bytes s = string_bytes t"
  ultimately show ?thesis by (simp add: string_bytes_def inj_eq)
qed

lemma sd_text: "self_delimiting rlp_text"
  unfolding rlp_text_def by (rule sd_map [OF rlp_string_sd]) (rule string_bytes_inj)

lemma sd_hash: "self_delimiting (\<lambda>h. rlp_string (hash_bytes h))"
  by (rule sd_map [OF rlp_string_sd]) (simp add: hash_bytes_inject)

lemma sd_bool: "self_delimiting rlp_bool"
  by (auto simp: self_delimiting_def rlp_bool_def split: if_splits)

lemma seq_nonempty: "e1 (fst p) \<noteq> [] \<Longrightarrow> seq e1 e2 p \<noteq> []"
  by (simp add: seq_def)

lemma rlp_uint_nonempty: "rlp_uint n \<noteq> []"
  by (simp add: rlp_uint_def rlp_string_nonempty)

lemma rlp_text_nonempty: "rlp_text s \<noteq> []"
  by (simp add: rlp_text_def rlp_string_nonempty)

lemma sd_record:
  assumes "self_delimiting P" and "\<And>x. enc x = rlp_list (P (t x))"
    and "\<And>x y. t x = t y \<Longrightarrow> x = y"
  shows "self_delimiting enc"
proof -
  have "self_delimiting (\<lambda>x. rlp_list (P (t x)))"
    by (rule sd_map [OF sd_struct [OF assms(1)]]) (rule assms(3))
  then show ?thesis by (simp add: assms(2) [abs_def])
qed

lemma hd_record:
  assumes "\<And>x. enc x = rlp_list (P x)" and "\<And>x. P x \<noteq> []"
  shows "fits (enc x) \<Longrightarrow> enc x \<noteq> [] \<and> hd (enc x) \<noteq> 192"
  by (simp add: assms rlp_list_nonempty hd_rlp_list)

lemma sd_ChunkInfo: "self_delimiting rlp_ChunkInfo"
proof (rule sd_record [where
      P = "seq (\<lambda>w :: uint64. rlp_uint (unat w))
               (seq (\<lambda>h. rlp_string (hash_bytes h))
               (seq (\<lambda>h. rlp_string (hash_bytes h))
               (seq (\<lambda>h. rlp_string (hash_bytes h))
               (seq (\<lambda>h. rlp_string (hash_bytes h))
               (seq rlp_bool rlp_string)))))"
      and t = "\<lambda>c. (ChainID c, PrevStateRoot c, PostStateRoot c, WithdrawRoot c, DataHash c,
         IsPadding c, TxBytes c)"])
  show "self_delimiting (seq (\<lambda>w :: uint64. rlp_uint (unat w))
               (seq (\<lambda>h. rlp_string (hash_bytes h))
               (seq (\<lambda>h. rlp_string (hash_bytes h))
               (seq (\<lambda>h. rlp_string (hash_bytes h))
               (seq (\<lambda>h. rlp_string (hash_bytes h))
               (seq rlp_bool rlp_string))))))"
    by (intro sd_seq sd_uint_word sd_hash sd_bool rlp_string_sd)
next
  fix c
  show "rlp_ChunkInfo c =
     rlp_list (seq (\<lambda>w :: uint64. rlp_uint (unat w))
               (seq (\<lambda>h. rlp_string (hash_bytes h))
               (seq (\<lambda>h. rlp_string (hash_bytes h))
               (seq (\<lambda>h. rlp_string (hash_bytes h))
               (seq (\<lambda>h. rlp_string (hash_bytes h))
               (seq rlp_bool rlp_string)))))
        (ChainID c, PrevStateRoot c, PostStateRoot c, WithdrawRoot c, DataHash c,
         IsPadding c, TxBytes c))"
    by (simp add: rlp_ChunkInfo_def seq_def)
next
  fix c d :: ChunkInfo
  assume "(ChainID c, PrevStateRoot c, PostStateRoot c, WithdrawRoot c, DataHash c,
         IsPadding c, TxBytes c) = (ChainID d, PrevStateRoot d, PostStateRoot d, WithdrawRoot d, DataHash d,
         IsPadding d, TxBytes d)"
  then show "c = d" by (cases c, cases d) simp
qed

lemma hd_ChunkInfo: "fits (rlp_ChunkInfo c) \<Longrightarrow> rlp_ChunkInfo c \<noteq> [] \<and> hd (rlp_ChunkInfo c) \<noteq> 192"
  by (rule hd_record [where P = "\<lambda>c. rlp_uint (unat (ChainID c)) @
               rlp_string (hash_bytes (PrevStateRoot c)) @
               rlp_string (hash_bytes (PostStateRoot c)) @
               rlp_string (hash_bytes (WithdrawRoot c)) @
               rlp_string (hash_bytes (DataHash c)) @
               rlp_bool (IsPadding c) @
               rlp_string (TxBytes c)"])
     (simp_all add: rlp_ChunkInfo_def rlp_uint_nonempty)

lemma sd_SubCircuitRowUsage: "self_delimiting rlp_SubCircuitRowUsage"
proof (rule sd_record [where
      P = "seq rlp_text (\<lambda>w :: uint64. rlp_uint (unat w))"
      and t = "\<lambda>u. (Name u, RowNumber u)"])
  show "self_delimiting (seq rlp_text (\<lambda>w :: uint64. rlp_uint (unat w)))"
    by (intro sd_seq sd_text sd_uint_word)
next
  fix u
  show "rlp_SubCircuitRowUsage u =
      rlp_list (seq rlp_text (\<lambda>w :: uint64. rlp_uint (unat w)) (Name u, RowNumber u))"
    by (simp add: rlp_SubCircuitRowUsage_def seq_def)
next
  fix u v :: SubCircuitRowUsage
  assume "(Name u, RowNumber u) = (Name v, RowNumber v)"
  then show "u = v" by (cases u, cases v) simp
qed

lemma rlp_SubCircuitRowUsage_nonempty: "rlp_SubCircuitRowUsage u \<noteq> []"
  by (simp add: rlp_SubCircuitRowUsage_def rlp_list_nonempty)

lemma sd_ChunkProof: "self_delimiting rlp_ChunkProof"
proof (rule sd_record [where
      P = "seq rlp_string (seq rlp_string (seq rlp_string (seq rlp_string (seq rlp_string
            (seq (rlp_ptr rlp_ChunkInfo) (seq rlp_text
              (\<lambda>us. rlp_list (concat (map rlp_SubCircuitRowUsage us)))))))))"
      and t = "\<lambda>p. (StorageTrace p, Protocol p, ChunkProof_Proof p, ChunkProof_Instances p,
            ChunkProof_Vk p, ChunkProof_ChunkInfo p, ChunkProof_GitVersion p, RowUsages p)"])
  show "self_delimiting (seq rlp_string (seq rlp_string (seq rlp_string (seq rlp_string (seq rlp_string
            (seq (rlp_ptr rlp_ChunkInfo) (seq rlp_text
              (\<lambda>us. rlp_list (concat (map rlp_SubCircuitRowUsage us))))))))))"
    by (intro sd_seq rlp_string_sd sd_text sd_ptr sd_ChunkInfo sd_slice sd_SubCircuitRowUsage
        hd_ChunkInfo rlp_SubCircuitRowUsage_nonempty)
next
  fix p
  show "rlp_ChunkProof p =
      rlp_list (seq rlp_string (seq rlp_string (seq rlp_string (seq rlp_string (seq rlp_string
            (seq (rlp_ptr rlp_ChunkInfo) (seq rlp_text
              (\<lambda>us. rlp_list (concat (map rlp_SubCircuitRowUsage us)))))))))
        (StorageTrace p, Protocol p, ChunkProof_Proof p, ChunkProof_Instances p,
            ChunkProof_Vk p, ChunkProof_ChunkInfo p, ChunkProof_GitVersion p, RowUsages p))"
    by (simp add: rlp_ChunkProof_def seq_def)
next
  fix p q :: ChunkProof
  assume "(StorageTrace p, Protocol p, ChunkProof_Proof p, ChunkProof_Instances p,
            ChunkProof_Vk p, ChunkProof_ChunkInfo p, ChunkProof_GitVersion p, RowUsages p)
        = (StorageTrace q, Protocol q, ChunkProof_Proof q, ChunkProof_Instances q,
            ChunkProof_Vk q, ChunkProof_ChunkInfo q, ChunkProof_GitVersion q, RowUsages q)"
  then show "p = q" by (cases p, cases q) simp
qed

lemma hd_ChunkProof:
  "fits (rlp_ChunkProof p) \<Longrightarrow> rlp_ChunkProof p \<noteq> [] \<and> hd (rlp_ChunkProof p) \<noteq> 192"
  by (rule hd_record [where P = "\<lambda>p. rlp_string (StorageTrace p) @
               rlp_string (Protocol p) @
               rlp_string (ChunkProof_Proof p) @
               rlp_string (ChunkProof_Instances p) @
               rlp_string (ChunkProof_Vk p) @
               rlp_ptr rlp_ChunkInfo (ChunkProof_ChunkInfo p) @
               rlp_text (ChunkProof_GitVersion p) @
               rlp_list (concat (map rlp_SubCircuitRowUsage (RowUsages p)))"])
     (simp_all add: rlp_ChunkProof_def rlp_string_nonempty)

lemma sd_BatchProof: "self_delimiting rlp_BatchProof"
proof (rule sd_record [where
      P = "seq rlp_string (seq rlp_string (seq rlp_string rlp_text))"
      and t = "\<lambda>p. (Proof p, Instances p, Vk p, GitVersion p)"])
  show "self_delimiting (seq rlp_string (seq rlp_string (seq rlp_string rlp_text)))"
    by (intro sd_seq rlp_string_sd sd_text)
next
  fix p
  show "rlp_BatchProof p =
      rlp_list (seq rlp_string (seq rlp_string (seq rlp_string rlp_text))
        (Proof p, Instances p, Vk p, GitVersion p))"
    by (simp add: rlp_BatchProof_def seq_def)
next
  fix p q :: BatchProof
  assume "(Proof p, Instances p, Vk p, GitVersion p) = (Proof q, Instances q, Vk q, GitVersion q)"
  then show "p = q" by (cases p, cases q) simp
qed

lemma hd_BatchProof:
  "fits (rlp_BatchProof p) \<Longrightarrow> rlp_BatchProof p \<noteq> [] \<and> hd (rlp_BatchProof p) \<noteq> 192"
  by (rule hd_record [where P = "\<lambda>p. rlp_string (Proof p) @ rlp_string (Instances p) @
               rlp_string (Vk p) @ rlp_text (GitVersion p)"])
     (simp_all add: rlp_BatchProof_def rlp_string_nonempty)

lemma sd_ProofDetail: "self_delimiting rlp_ProofDetail"
proof (rule sd_record [where
      P = "seq rlp_text (seq (\<lambda>w :: ProofType. rlp_uint (unat w))
            (seq (\<lambda>w :: RespStatus. rlp_uint (unat w))
            (seq (rlp_ptr rlp_ChunkProof) (seq (rlp_ptr rlp_BatchProof) rlp_text))))"
      and t = "\<lambda>d. (ID d, Type d, Status d, ChunkProof d, BatchProof d, Error d)"])
  show "self_delimiting (seq rlp_text (seq (\<lambda>w :: ProofType. rlp_uint (unat w))
            (seq (\<lambda>w :: RespStatus. rlp_uint (unat w))
            (seq (rlp_ptr rlp_ChunkProof) (seq (rlp_ptr rlp_BatchProof) rlp_text)))))"
    by (intro sd_seq sd_text sd_uint_word sd_ptr sd_ChunkProof sd_BatchProof
        hd_ChunkProof hd_BatchProof)
next
  fix d
  show "rlp_ProofDetail d =
      rlp_list (seq rlp_text (seq (\<lambda>w :: ProofType. rlp_uint (unat w))
            (seq (\<lambda>w :: RespStatus. rlp_uint (unat w))
            (seq (rlp_ptr rlp_ChunkProof) (seq (rlp_ptr rlp_BatchProof) rlp_text))))
        (ID d, Type d, Status d, ChunkProof d, BatchProof d, Error d))"
    by (simp add: rlp_ProofDetail_def seq_def)
next
  fix d d' :: ProofDetail
  assume "(ID d, Type d, Status d, ChunkProof d, BatchProof d, Error d)
        = (ID d', Type d', Status d', ChunkProof d', BatchProof d', Error d')"
  then show "d = d'" by (cases d, cases d') simp
qed

lemma hd_ProofDetail:
  "fits (rlp_ProofDetail d) \<Longrightarrow> rlp_ProofDetail d \<noteq> [] \<and> hd (rlp_ProofDetail d) \<noteq> 192"
  by (rule hd_record [where P = "\<lambda>d. rlp_text (ID d) @
               rlp_uint (unat (Type d)) @
               rlp_uint (unat (Status d)) @
               rlp_ptr rlp_ChunkProof (ChunkProof d) @
               rlp_ptr rlp_BatchProof (BatchProof d) @
               rlp_text (Error d)"])
     (simp_all add: rlp_ProofDetail_def rlp_text_nonempty)

text \<open>The serialisation determines the value.\<close>

lemma RLP_EncodeToBytes_inj:
  assumes "RLP_EncodeToBytes z = Inr b" and "RLP_EncodeToBytes z' = Inr b"
  shows "z = z'"
proof -
  have sd: "self_delimiting (rlp_ptr rlp_ProofDetail)"
    by (intro sd_ptr sd_ProofDetail hd_ProofDetail)
  from assms have "rlp_ptr rlp_ProofDetail z = rlp_ptr rlp_ProofDetail z'"
    and "fits (rlp_ptr rlp_ProofDetail z)" and "fits (rlp_ptr rlp_ProofDetail z')"
    by (auto simp: RLP_EncodeToBytes_def fits_def split: if_splits)
  with sd show ?thesis by (rule sd_inj)
qed

text \<open>The serialisations of the examples.\<close>

lemma be_bytes_small: "0 < n \<Longrightarrow> n < 256 \<Longrightarrow> be_bytes n = [word_of_nat n]"
  by (subst be_bytes.simps, subst be_bytes.simps) simp

lemma be_bytes_0: "be_bytes 0 = []"
  by (subst be_bytes.simps) simp

lemma rlp_demo_detail: "RLP_EncodeToBytes (Some demo_detail) = Inr demo_rlp_bytes"
  by (simp add: RLP_EncodeToBytes_def rlp_ptr_def rlp_ProofDetail_def rlp_BatchProof_def
      rlp_text_def rlp_uint_def rlp_string_def rlp_list_def rlp_header_def string_bytes_def
      be_bytes_small be_bytes_0 demo_detail_def demo_rlp_bytes_def ProofTypeBatch_def StatusOk_def)

lemmas rlp_eval =
  RLP_EncodeToBytes_def rlp_ptr_def rlp_ProofDetail_def rlp_BatchProof_def
  rlp_text_def rlp_uint_def rlp_string_def rlp_list_def rlp_header_def string_bytes_def
  be_bytes_small be_bytes_0 demo_detail_def ProofTypeBatch_def StatusOk_def

lemma rlp_renamed_detail:
  "RLP_EncodeToBytes (Some renamed_detail) =
     Inr ([248, 84, 134, 116, 97, 115, 107, 45, 50, 2, 128, 192, 248, 71, 184, 64] @
          replicate 64 1 @ [128, 128, 130, 118, 49, 128])"
  by (simp add: rlp_eval renamed_detail_def)

lemma rlp_reproved_detail:
  "RLP_EncodeToBytes (Some reproved_detail) =
     Inr ([248, 84, 134, 116, 97, 115, 107, 45, 49, 2, 128, 192, 248, 71, 184, 64, 2] @
          replicate 63 1 @ [128, 128, 130, 118, 49, 128])"
  by (simp add: rlp_eval reproved_detail_def)

lemma rlp_shifted_detail:
  "RLP_EncodeToBytes (Some shifted_detail) =
     Inr ([248, 83, 133, 116, 97, 115, 107, 45, 2, 128, 192, 248, 71, 184, 64] @
          replicate 64 1 @ [128, 128, 130, 118, 49, 49])"
  by (simp add: rlp_eval shifted_detail_def)

lemma rlp_nil: "RLP_EncodeToBytes None = Inr [192]"
  by (simp add: RLP_EncodeToBytes_def rlp_ptr_def)

lemma demo_Keccak_eq:
  "(crypto_Keccak256Hash demo_lib x = crypto_Keccak256Hash demo_lib y)
     = (take 32 (x @ replicate 32 0) = take 32 (y @ replicate 32 0))"
  by (simp add: demo_lib_def demo_Keccak_def BytesToHash_inject)

lemma two_cons_neq_ones: "2 # xs \<noteq> replicate n (1 :: byte)"
  by (cases n) simp_all

text \<open>
  C8. \<open>ProofDetail.Hash\<close>, with \<open>rlp.EncodeToBytes\<close> the RLP serialiser written out above
  and \<open>crypto.Keccak256Hash\<close> any function to 32 bytes: for two values \<open>z\<close> and \<open>z'\<close>
  that serialise, the hash of \<open>z\<close> is the 32-byte digest of its serialisation; the
  serialisations are equal exactly when the values are, so no change of a field, nested or
  not, is lost or confused with a change of another field; and unless the digest function
  collides on the two serialisations, the hashes are equal exactly when the values are:
  equal content gives the same digest, and a value with any field changed gives another.
\<close>

theorem C8_hash_field_sensitive:
  assumes "RLP_EncodeToBytes z = Inr b" and "RLP_EncodeToBytes z' = Inr b'"
  shows "ProofDetail_Hash (lib\<lparr>rlp_EncodeToBytes := RLP_EncodeToBytes\<rparr>) z
           = Inr (hash_bytes (crypto_Keccak256Hash lib b))
       \<and> length (hash_bytes (crypto_Keccak256Hash lib b)) = 32
       \<and> (b = b') = (z = z')
       \<and> ((crypto_Keccak256Hash lib b = crypto_Keccak256Hash lib b' \<longrightarrow> b = b') \<longrightarrow>
            (ProofDetail_Hash (lib\<lparr>rlp_EncodeToBytes := RLP_EncodeToBytes\<rparr>) z
               = ProofDetail_Hash (lib\<lparr>rlp_EncodeToBytes := RLP_EncodeToBytes\<rparr>) z')
              = (z = z'))"
proof -
  have inj: "(b = b') = (z = z')"
  proof
    assume "b = b'"
    with assms show "z = z'" by (simp add: RLP_EncodeToBytes_inj)
  next
    assume "z = z'"
    with assms show "b = b'" by simp
  qed
  have h: "ProofDetail_Hash (lib\<lparr>rlp_EncodeToBytes := RLP_EncodeToBytes\<rparr>) z
      = Inr (hash_bytes (crypto_Keccak256Hash lib b))"
    "ProofDetail_Hash (lib\<lparr>rlp_EncodeToBytes := RLP_EncodeToBytes\<rparr>) z'
      = Inr (hash_bytes (crypto_Keccak256Hash lib b'))"
    using assms by (simp_all add: ProofDetail_Hash_def)
  show ?thesis
    unfolding h using inj by (auto simp: length_hash_bytes hash_bytes_inject)
qed

text \<open>
  The theorem at the demo \<open>ProofDetail\<close>: its hash, and the different hashes of the three
  variants and of the nil pointer.
\<close>

theorem C8_hash_field_sensitive_witness:
  "ProofDetail_Hash rlp_lib (Some demo_detail) = Inr (take 32 demo_rlp_bytes)
   \<and> ProofDetail_Hash rlp_lib (Some renamed_detail) \<noteq> ProofDetail_Hash rlp_lib (Some demo_detail)
   \<and> ProofDetail_Hash rlp_lib (Some reproved_detail) \<noteq> ProofDetail_Hash rlp_lib (Some demo_detail)
   \<and> ProofDetail_Hash rlp_lib (Some shifted_detail) \<noteq> ProofDetail_Hash rlp_lib (Some demo_detail)
   \<and> ProofDetail_Hash rlp_lib None \<noteq> ProofDetail_Hash rlp_lib (Some demo_detail)"
proof -
  have d1: "renamed_detail \<noteq> demo_detail"
    by (simp add: renamed_detail_def demo_detail_def)
  have d2: "reproved_detail \<noteq> demo_detail"
    by (simp add: reproved_detail_def demo_detail_def two_cons_neq_ones)
  have d3: "shifted_detail \<noteq> demo_detail"
    by (simp add: shifted_detail_def demo_detail_def)
  have k1: "crypto_Keccak256Hash demo_lib
      ([248, 84, 134, 116, 97, 115, 107, 45, 50, 2, 128, 192, 248, 71, 184, 64] @
          replicate 64 1 @ [128, 128, 130, 118, 49, 128])
      \<noteq> crypto_Keccak256Hash demo_lib demo_rlp_bytes"
    by (simp add: demo_Keccak_eq demo_rlp_bytes_def)
  have k2: "crypto_Keccak256Hash demo_lib
      ([248, 84, 134, 116, 97, 115, 107, 45, 49, 2, 128, 192, 248, 71, 184, 64, 2] @
          replicate 63 1 @ [128, 128, 130, 118, 49, 128])
      \<noteq> crypto_Keccak256Hash demo_lib demo_rlp_bytes"
    by (simp add: demo_Keccak_eq demo_rlp_bytes_def two_cons_neq_ones)
  have k3: "crypto_Keccak256Hash demo_lib
      ([248, 83, 133, 116, 97, 115, 107, 45, 2, 128, 192, 248, 71, 184, 64] @
          replicate 64 1 @ [128, 128, 130, 118, 49, 49])
      \<noteq> crypto_Keccak256Hash demo_lib demo_rlp_bytes"
    by (simp add: demo_Keccak_eq demo_rlp_bytes_def)
  have k4: "crypto_Keccak256Hash demo_lib [192] \<noteq> crypto_Keccak256Hash demo_lib demo_rlp_bytes"
    by (simp add: demo_Keccak_eq demo_rlp_bytes_def)
  have v: "hash_bytes (crypto_Keccak256Hash demo_lib demo_rlp_bytes) = take 32 demo_rlp_bytes"
    by (simp add: demo_lib_def demo_Keccak_def hash_bytes_BytesToHash demo_rlp_bytes_def)
  from C8_hash_field_sensitive [OF rlp_demo_detail rlp_demo_detail, of demo_lib] v
  have c0: "ProofDetail_Hash rlp_lib (Some demo_detail) = Inr (take 32 demo_rlp_bytes)"
    by (simp add: rlp_lib_def)
  from C8_hash_field_sensitive [OF rlp_renamed_detail rlp_demo_detail, of demo_lib] k1 d1
  have c1: "ProofDetail_Hash rlp_lib (Some renamed_detail) \<noteq> ProofDetail_Hash rlp_lib (Some demo_detail)"
    unfolding rlp_lib_def by blast
  from C8_hash_field_sensitive [OF rlp_reproved_detail rlp_demo_detail, of demo_lib] k2 d2
  have c2: "ProofDetail_Hash rlp_lib (Some reproved_detail) \<noteq> ProofDetail_Hash rlp_lib (Some demo_detail)"
    unfolding rlp_lib_def by blast
  from C8_hash_field_sensitive [OF rlp_shifted_detail rlp_demo_detail, of demo_lib] k3 d3
  have c3: "ProofDetail_Hash rlp_lib (Some shifted_detail) \<noteq> ProofDetail_Hash rlp_lib (Some demo_detail)"
    unfolding rlp_lib_def by blast
  from C8_hash_field_sensitive [OF rlp_nil rlp_demo_detail, of demo_lib] k4
  have c4: "ProofDetail_Hash rlp_lib None \<noteq> ProofDetail_Hash rlp_lib (Some demo_detail)"
    unfolding rlp_lib_def by blast
  from c0 c1 c2 c3 c4 show ?thesis by simp
qed

subsection \<open>Sign, Verify and PublicKey\<close>

lemma Sign_success:
  assumes "Sign lib a0 priv = (a, None)"
  shows "\<exists>hash sig. ProofDetail_Hash lib (ProofDetail a0) = Inr hash
      \<and> crypto_Sign lib hash priv = Inr sig
      \<and> a = a0\<lparr>Signature := hexutil_Encode lib sig\<rparr>"
  using assms by (auto simp: Sign_def split: sum.splits)

text \<open>
  C1. For every \<open>ProofDetail\<close> \<open>d\<close> and every private key \<open>priv\<close>: after \<open>Sign\<close> has succeeded
  on a message around \<open>d\<close> (nothing cached), \<open>Verify\<close> on the resulting message returns
  (true, nil), and \<open>PublicKey\<close> on it, before or after \<open>Verify\<close>, returns the hex encoding
  of the compressed public key of \<open>priv\<close>. The imported packages enter through their
  contracts: the hexadecimal helpers undo each other, and a signature made by
  \<open>crypto.Sign\<close> is recovered to and verified against the signer's key.
\<close>

theorem C1_sign_then_verify:
  assumes "hex_contract lib" and "sign_contract lib"
    and "Sign lib \<lparr>ProofDetail = Some d, Signature = s0, publicKey = ''''\<rparr> priv = (a, None)"
  shows "snd (Verify lib a) = Returns (True, None)
     \<and> snd (PublicKey lib a)
         = (common_Bytes2Hex lib (crypto_CompressPubkey lib (ecdsa_PublicKey lib priv)), None)
     \<and> snd (PublicKey lib (fst (Verify lib a)))
         = (common_Bytes2Hex lib (crypto_CompressPubkey lib (ecdsa_PublicKey lib priv)), None)"
proof -
  let ?a0 = "\<lparr>ProofDetail = Some d, Signature = s0, publicKey = ''''\<rparr>"
  let ?key = "common_Bytes2Hex lib (crypto_CompressPubkey lib (ecdsa_PublicKey lib priv))"
  from Sign_success [OF assms(3)] obtain hash sig where
    h: "ProofDetail_Hash lib (Some d) = Inr hash" and
    s: "crypto_Sign lib hash priv = Inr sig" and
    a: "a = ?a0\<lparr>Signature := hexutil_Encode lib sig\<rparr>"
    by auto
  from assms(2) s have len: "length sig = 65"
    and rec: "crypto_SigToPub lib hash sig = Inr (ecdsa_PublicKey lib priv)"
    and ver: "crypto_VerifySignature lib (crypto_CompressPubkey lib (ecdsa_PublicKey lib priv))
                hash (take 64 sig)"
    unfolding sign_contract_def by blast+
  from assms(1) have dec: "common_FromHex lib (hexutil_Encode lib sig) = sig"
    and key: "common_FromHex lib ?key = crypto_CompressPubkey lib (ecdsa_PublicKey lib priv)"
    unfolding hex_contract_def by simp_all
  from len have ne: "sig \<noteq> []" and bl: "butlast sig = take 64 sig"
    by (auto simp: butlast_conv_take)
  have v: "Verify lib a = (a\<lparr>publicKey := ?key\<rparr>, Returns (True, None))"
    by (simp add: Verify_def a h dec rec key ne bl ver)
  have p: "snd (PublicKey lib a) = (?key, None)"
    by (simp add: PublicKey_def a h dec rec)
  have p': "snd (PublicKey lib (a\<lparr>publicKey := ?key\<rparr>)) = (?key, None)"
    by (simp add: PublicKey_def a h dec rec)
  from v p p' show ?thesis by simp
qed

text \<open>The theorem at the demo message, signed with the demo key.\<close>

theorem C1_sign_then_verify_witness:
  "hex_contract demo_lib \<and> sign_contract demo_lib
   \<and> Sign demo_lib \<lparr>ProofDetail = Some demo_detail, Signature = '''', publicKey = ''''\<rparr> demo_priv
       = (demo_signed, None)
   \<and> snd (Verify demo_lib demo_signed) = Returns (True, None)
   \<and> snd (PublicKey demo_lib demo_signed) = (Bytes2Hex (2 # rev demo_priv), None)
   \<and> snd (PublicKey demo_lib (fst (Verify demo_lib demo_signed)))
       = (Bytes2Hex (2 # rev demo_priv), None)"
proof -
  have key: "common_Bytes2Hex demo_lib (crypto_CompressPubkey demo_lib (ecdsa_PublicKey demo_lib demo_priv))
      = Bytes2Hex (2 # rev demo_priv)"
    by (simp add: demo_lib_def demo_CompressPubkey_def)
  from C1_sign_then_verify [OF hex_contract_demo sign_contract_demo demo_Sign_run(1)]
    hex_contract_demo sign_contract_demo demo_Sign_run(1) key
  show ?thesis by simp
qed

text \<open>
  C3. For every message whose \<open>ProofDetail\<close> hashes successfully, whose stored signature
  decodes to bytes from which \<open>SigToPub\<close> recovers a key, and whose s-component is low: if
  the cache \<open>publicKey\<close> is empty, \<open>Verify\<close> returns (true, nil), the signature being checked
  against the key recovered from that same signature; and \<open>Verify\<close> returns (false, nil) on
  such a message only when the cache already held a key other than the recovered one.
  The imported packages enter through their contracts: the hexadecimal helpers undo each
  other, and the key \<open>SigToPub\<close> recovers is one \<open>VerifySignature\<close> accepts for a low s.
\<close>

theorem C3_recovered_key_verifies:
  assumes "hex_contract lib" and "recover_contract lib"
    and "ProofDetail_Hash lib (ProofDetail a) = Inr hash"
    and "crypto_SigToPub lib hash (common_FromHex lib (Signature a)) = Inr pk"
    and "low_s (common_FromHex lib (Signature a))"
  shows "(publicKey a = '''' \<longrightarrow> snd (Verify lib a) = Returns (True, None))
     \<and> (snd (Verify lib a) = Returns (False, None) \<longrightarrow>
          publicKey a \<noteq> '''' \<and>
          publicKey a \<noteq> common_Bytes2Hex lib (crypto_CompressPubkey lib pk))"
proof -
  let ?sig = "common_FromHex lib (Signature a)"
  let ?key = "common_Bytes2Hex lib (crypto_CompressPubkey lib pk)"
  from assms(2,4,5) have len: "length ?sig = 65"
    and ver: "crypto_VerifySignature lib (crypto_CompressPubkey lib pk) hash (take 64 ?sig)"
    unfolding recover_contract_def by blast+
  from assms(1) have key: "common_FromHex lib ?key = crypto_CompressPubkey lib pk"
    unfolding hex_contract_def by simp
  from len have ne: "?sig \<noteq> []" and bl: "butlast ?sig = take 64 ?sig"
    by (auto simp: butlast_conv_take)
  have empty: "publicKey a = '''' \<longrightarrow> snd (Verify lib a) = Returns (True, None)"
    by (simp add: Verify_def assms(3,4) key ne bl ver)
  have same: "publicKey a = ?key \<longrightarrow> snd (Verify lib a) = Returns (True, None)"
  proof
    assume k: "publicKey a = ?key"
    show "snd (Verify lib a) = Returns (True, None)"
    proof (cases "?key = []")
      case True
      with k empty show ?thesis by simp
    next
      case False
      with k show ?thesis
        using key by (simp add: Verify_def Let_def assms(3) ne bl ver)
    qed
  qed
  from empty same show ?thesis by auto
qed

text \<open>The theorem at the signed demo message, whose cache is empty.\<close>

theorem C3_recovered_key_verifies_witness:
  "hex_contract demo_lib \<and> recover_contract demo_lib
   \<and> publicKey demo_signed = ''''
   \<and> low_s (common_FromHex demo_lib (Signature demo_signed))
   \<and> snd (Verify demo_lib demo_signed) = Returns (True, None)"
proof -
  have sig: "common_FromHex demo_lib (Signature demo_signed) = demo_sig"
    by (simp add: demo_Sign_run(2) demo_lib_def FromHex_Encode)
  have h: "ProofDetail_Hash demo_lib (ProofDetail demo_signed)
      = Inr ([116, 97, 115, 107, 45, 49, 2, 0] @ replicate 24 0)"
    by (simp add: demo_Sign_run(2) demo_Hash)
  have r: "crypto_SigToPub demo_lib ([116, 97, 115, 107, 45, 49, 2, 0] @ replicate 24 0)
      (common_FromHex demo_lib (Signature demo_signed)) = Inr (rev demo_priv)"
    by (simp only: sig demo_recover)
  have l: "low_s (common_FromHex demo_lib (Signature demo_signed))"
    by (simp only: sig demo_low_s)
  have e: "publicKey demo_signed = ''''" by (simp add: demo_Sign_run(2))
  from C3_recovered_key_verifies [OF hex_contract_demo recover_contract_demo h r l]
    hex_contract_demo recover_contract_demo e l
  show ?thesis by simp
qed

text \<open>
  C2 (as amended). \<open>Verify\<close> returns an error, with false, in exactly two cases: hashing
  fails, or the cache \<open>publicKey\<close> is empty and \<open>SigToPub\<close> fails on the bytes
  \<open>common.FromHex\<close> decodes from the signature string (\<open>FromHex\<close> itself reports nothing:
  malformed hex shows only in the bytes it returns). Otherwise, when the decoded signature
  is not empty, \<open>Verify\<close> returns (\<open>v\<close>, nil), where \<open>v\<close> is the verdict of
  \<open>VerifySignature\<close> on the hash and the signature without its last byte, for the cached
  key if there is one and else for the key recovered from the signature, which is then
  cached. So a changed signature byte gives (false, nil) only when \<open>VerifySignature\<close>
  rejects the signature for that key.
\<close>

theorem C2_verify_outcomes:
  "(ProofDetail_Hash lib (ProofDetail a) = Inl err \<longrightarrow>
      Verify lib a = (a, Returns (False, Some err)))
   \<and> (ProofDetail_Hash lib (ProofDetail a) = Inr hash \<and> publicKey a = '''' \<and>
       crypto_SigToPub lib hash (common_FromHex lib (Signature a)) = Inl err \<longrightarrow>
      Verify lib a = (a, Returns (False, Some err)))
   \<and> (ProofDetail_Hash lib (ProofDetail a) = Inr hash \<and> publicKey a = '''' \<and>
       crypto_SigToPub lib hash (common_FromHex lib (Signature a)) = Inr pk \<and>
       common_FromHex lib (Signature a) \<noteq> [] \<longrightarrow>
      Verify lib a =
        (a\<lparr>publicKey := common_Bytes2Hex lib (crypto_CompressPubkey lib pk)\<rparr>,
         Returns (crypto_VerifySignature lib
                    (common_FromHex lib (common_Bytes2Hex lib (crypto_CompressPubkey lib pk)))
                    hash (butlast (common_FromHex lib (Signature a))),
                  None)))
   \<and> (ProofDetail_Hash lib (ProofDetail a) = Inr hash \<and> publicKey a \<noteq> '''' \<and>
       common_FromHex lib (Signature a) \<noteq> [] \<longrightarrow>
      Verify lib a =
        (a, Returns (crypto_VerifySignature lib (common_FromHex lib (publicKey a)) hash
                       (butlast (common_FromHex lib (Signature a))),
                     None)))
   \<and> (snd (Verify lib a) = Returns (ok, Some err) \<longrightarrow>
        \<not> ok \<and>
        (ProofDetail_Hash lib (ProofDetail a) = Inl err \<or>
         (publicKey a = '''' \<and>
          (\<exists>hash. ProofDetail_Hash lib (ProofDetail a) = Inr hash \<and>
             crypto_SigToPub lib hash (common_FromHex lib (Signature a)) = Inl err))))"
  by (auto simp: Verify_def Let_def split: sum.splits if_splits)

text \<open>
  The theorem at four runs: the signed demo message (recovered, verified, cached); a
  well-formed signature of two bytes (recovery fails: an error); a serialiser that fails
  (an error); and the two-byte signature on the message whose key is cached (false, no
  error).
\<close>

theorem C2_verify_outcomes_witness:
  "Verify demo_lib demo_signed = (demo_verified, Returns (True, None))
   \<and> Verify demo_lib (demo_signed\<lparr>Signature := ''0x1234''\<rparr>)
       = (demo_signed\<lparr>Signature := ''0x1234''\<rparr>,
          Returns (False, Some (errors_New ''recovery failed'')))
   \<and> Verify failing_rlp_lib demo_signed
       = (demo_signed, Returns (False, Some (errors_New ''rlp: encoding failed'')))
   \<and> Verify demo_lib (demo_verified\<lparr>Signature := Encode [18, 52]\<rparr>)
       = (demo_verified\<lparr>Signature := Encode [18, 52]\<rparr>, Returns (False, None))"
proof -
  let ?h = "[116, 97, 115, 107, 45, 49, 2, 0] @ replicate 24 0 :: bytes"
  have h: "ProofDetail_Hash demo_lib (ProofDetail (demo_signed\<lparr>Signature := s\<rparr>)) = Inr ?h" for s
    by (simp add: demo_Sign_run(2) demo_Hash)
  have h': "ProofDetail_Hash demo_lib (ProofDetail demo_signed) = Inr ?h"
    by (simp add: demo_Sign_run(2) demo_Hash)
  have hv: "ProofDetail_Hash demo_lib (ProofDetail (demo_verified\<lparr>Signature := s\<rparr>)) = Inr ?h" for s
    by (simp add: demo_verified_eq demo_Hash)
  have hf: "ProofDetail_Hash failing_rlp_lib (ProofDetail demo_signed)
      = Inl (errors_New ''rlp: encoding failed'')"
    by (simp add: ProofDetail_Hash_def failing_rlp_lib_def)
  have e: "publicKey (demo_signed\<lparr>Signature := s\<rparr>) = ''''" "publicKey demo_signed = ''''" for s
    by (simp_all add: demo_Sign_run(2))
  have sig1: "common_FromHex demo_lib (Signature demo_signed) = demo_sig"
    by (simp add: demo_Sign_run(2) demo_lib_fields FromHex_Encode)
  have r1: "crypto_SigToPub demo_lib ?h (common_FromHex demo_lib (Signature demo_signed))
      = Inr (rev demo_priv)"
    by (simp only: sig1 demo_recover)
  have ne1: "common_FromHex demo_lib (Signature demo_signed) \<noteq> []"
    by (simp add: sig1 demo_sig_facts)
  have r2: "crypto_SigToPub demo_lib ?h
      (common_FromHex demo_lib (Signature (demo_signed\<lparr>Signature := ''0x1234''\<rparr>)))
      = Inl (errors_New ''recovery failed'')"
    by (simp add: demo_lib_fields FromHex_short demo_SigToPub_def)
  have k: "publicKey (demo_verified\<lparr>Signature := s\<rparr>) \<noteq> ''''" for s
    by (simp add: demo_verified_eq demo_key_nonempty)
  have ne4: "common_FromHex demo_lib (Signature (demo_verified\<lparr>Signature := Encode [18, 52]\<rparr>)) \<noteq> []"
    by (simp add: demo_lib_fields FromHex_Encode)
  have first: "Verify demo_lib demo_signed = (demo_verified, Returns (True, None))"
    using C2_verify_outcomes [of demo_lib demo_signed _ ?h "rev demo_priv"] h' e(2) r1 ne1
    by (simp add: demo_verified_eq demo_Sign_run(2) demo_lib_fields FromHex_Encode FromHex_Bytes2Hex
        demo_CompressPubkey_def demo_VerifySignature_def demo_sig_facts demo_s_def
        butlast_conv_take)
       (simp add: demo_sig_def demo_priv_def)
  have second: "Verify demo_lib (demo_signed\<lparr>Signature := ''0x1234''\<rparr>)
       = (demo_signed\<lparr>Signature := ''0x1234''\<rparr>,
          Returns (False, Some (errors_New ''recovery failed'')))"
    using C2_verify_outcomes [of demo_lib "demo_signed\<lparr>Signature := ''0x1234''\<rparr>"
        "errors_New ''recovery failed''" ?h] h e(1) r2
    by simp
  have third: "Verify failing_rlp_lib demo_signed
       = (demo_signed, Returns (False, Some (errors_New ''rlp: encoding failed'')))"
    using C2_verify_outcomes [of failing_rlp_lib demo_signed "errors_New ''rlp: encoding failed''"] hf
    by simp
  have fourth: "Verify demo_lib (demo_verified\<lparr>Signature := Encode [18, 52]\<rparr>)
       = (demo_verified\<lparr>Signature := Encode [18, 52]\<rparr>, Returns (False, None))"
    using C2_verify_outcomes [of demo_lib "demo_verified\<lparr>Signature := Encode [18, 52]\<rparr>" _ ?h] hv k ne4
    by (simp add: demo_lib_fields FromHex_Encode demo_VerifySignature_def)
  from first second third fourth show ?thesis by simp
qed

text \<open>
  Three facts behind the runs below, for every instance of the imported packages: the
  result of \<open>Verify\<close> depends on the signature string only through the bytes \<open>FromHex\<close>
  decodes from it; with a cached key it does not depend on the last byte of the decoded
  signature; and with a cached key and a successful hash it is never an error.
\<close>

lemma Verify_same_decoding:
  assumes "common_FromHex lib s' = common_FromHex lib s"
  shows "snd (Verify lib (a\<lparr>Signature := s'\<rparr>)) = snd (Verify lib (a\<lparr>Signature := s\<rparr>))"
  using assms by (simp add: Verify_def Let_def split: sum.split)

lemma Verify_cached_ignores_last_byte:
  assumes "publicKey a \<noteq> ''''"
    and "butlast (common_FromHex lib s') = butlast (common_FromHex lib s)"
    and "common_FromHex lib s' \<noteq> []" and "common_FromHex lib s \<noteq> []"
  shows "snd (Verify lib (a\<lparr>Signature := s'\<rparr>)) = snd (Verify lib (a\<lparr>Signature := s\<rparr>))"
  using assms by (simp add: Verify_def Let_def split: sum.split)

lemma Verify_cached_no_error:
  assumes "publicKey a \<noteq> ''''" and "ProofDetail_Hash lib (ProofDetail a) = Inr hash"
  shows "snd (Verify lib a) \<noteq> Returns (ok, Some err)"
  using assms by (simp add: Verify_def Let_def)

text \<open>
  C2 as stated fails. The signed demo message with zz appended to its signature string is
  not valid hex, yet \<open>FromHex\<close> decodes the 65 bytes before the malformed pair and
  \<open>Verify\<close> returns (true, nil), not an error. On the message whose key is cached by an
  earlier \<open>Verify\<close>, changing the last byte of the signature (the recovery id, which
  \<open>sig[:len(sig)-1]\<close> drops) from 0 to 1 still gives (true, nil), not (false, nil); and the
  malformed signature string 0x12zz gives (false, nil), a silent false and not an error.
\<close>

theorem C2_lenient_decoding_counterexample:
  "\<not> valid_hex (Signature demo_signed @ ''zz'')
   \<and> snd (Verify demo_lib (demo_signed\<lparr>Signature := Signature demo_signed @ ''zz''\<rparr>))
       = Returns (True, None)
   \<and> butlast demo_sig @ [1] \<noteq> demo_sig
   \<and> snd (Verify demo_lib (demo_verified\<lparr>Signature := Encode (butlast demo_sig @ [1])\<rparr>))
       = Returns (True, None)
   \<and> \<not> valid_hex ''0x12zz''
   \<and> snd (Verify demo_lib (demo_verified\<lparr>Signature := ''0x12zz''\<rparr>)) = Returns (False, None)"
proof -
  let ?h = "[116, 97, 115, 107, 45, 49, 2, 0] @ replicate 24 0 :: bytes"
  have nv: "\<not> valid_hex (Signature demo_signed @ ''zz'')"
    using prefix_Encode [of demo_sig "''zz''"]
    by (simp add: valid_hex_def demo_Sign_run(2)) (simp add: Encode_def fromHexChar_def)
  have garbage: "snd (Verify demo_lib (demo_signed\<lparr>Signature := Signature demo_signed @ ''zz''\<rparr>))
       = Returns (True, None)"
    by (simp add: Verify_def demo_Sign_run(2) demo_Hash)
       (simp add: demo_lib_fields FromHex_Encode_zz FromHex_Bytes2Hex
         demo_recover [unfolded demo_lib_fields, simplified] demo_sig_facts
         demo_CompressPubkey_def demo_VerifySignature_def demo_s_def butlast_conv_take,
        simp add: demo_sig_def demo_priv_def)
  have flipped: "butlast demo_sig @ [1] \<noteq> demo_sig"
    by (simp add: demo_sig_def demo_priv_def)
  have cached: "snd (Verify demo_lib (demo_verified\<lparr>Signature := Encode (butlast demo_sig @ [1])\<rparr>))
       = Returns (True, None)"
    by (simp add: Verify_def demo_verified_eq demo_Hash demo_key_nonempty)
       (simp add: demo_lib_fields FromHex_Encode FromHex_Bytes2Hex
         demo_VerifySignature_def demo_s_def butlast_conv_take,
        simp add: demo_sig_def demo_priv_def)
  have nv2: "\<not> valid_hex ''0x12zz''"
    by (simp add: valid_hex_def has0xPrefix_def fromHexChar_def)
  have silent: "snd (Verify demo_lib (demo_verified\<lparr>Signature := ''0x12zz''\<rparr>)) = Returns (False, None)"
    by (simp add: Verify_def demo_verified_eq demo_Hash demo_key_nonempty)
       (simp add: demo_lib_fields FromHex_short demo_VerifySignature_def)
  from nv garbage flipped cached nv2 silent show ?thesis by simp
qed

text \<open>
  C10. For every message whose cache \<open>publicKey\<close> is not empty and whose \<open>ProofDetail\<close>
  hashes successfully: if \<open>common.FromHex\<close> decodes the stored signature string to the
  empty slice, \<open>Verify\<close> panics at \<open>sig[:len(sig)-1]\<close>, slice bounds out of range, and
  returns neither an error nor false.
\<close>

theorem C10_empty_signature_panics:
  assumes "publicKey a \<noteq> ''''"
    and "ProofDetail_Hash lib (ProofDetail a) = Inr hash"
    and "common_FromHex lib (Signature a) = []"
  shows "Verify lib a = (a, Panics ''runtime error: slice bounds out of range [:-1]'')"
  using assms by (simp add: Verify_def)

text \<open>
  The theorem at the demo message whose key is cached, with the empty string and with the
  non-hex string zz as its signature: both decode to the empty slice.
\<close>

theorem C10_empty_signature_panics_witness:
  "publicKey demo_verified \<noteq> ''''
   \<and> common_FromHex demo_lib '''' = [] \<and> common_FromHex demo_lib ''zz'' = []
   \<and> Verify demo_lib (demo_verified\<lparr>Signature := ''''\<rparr>)
       = (demo_verified\<lparr>Signature := ''''\<rparr>,
          Panics ''runtime error: slice bounds out of range [:-1]'')
   \<and> Verify demo_lib (demo_verified\<lparr>Signature := ''zz''\<rparr>)
       = (demo_verified\<lparr>Signature := ''zz''\<rparr>,
          Panics ''runtime error: slice bounds out of range [:-1]'')"
proof -
  have k: "publicKey (demo_verified\<lparr>Signature := s\<rparr>) \<noteq> ''''" for s
    by (simp add: demo_verified_eq demo_key_nonempty)
  have h: "ProofDetail_Hash demo_lib (ProofDetail (demo_verified\<lparr>Signature := s\<rparr>))
      = Inr ([116, 97, 115, 107, 45, 49, 2, 0] @ replicate 24 0)" for s
    by (simp add: demo_verified_eq demo_Hash)
  have e: "common_FromHex demo_lib (Signature (demo_verified\<lparr>Signature := ''''\<rparr>)) = []"
    "common_FromHex demo_lib (Signature (demo_verified\<lparr>Signature := ''zz''\<rparr>)) = []"
    by (simp_all add: demo_lib_def FromHex_empty)
  from C10_empty_signature_panics [OF k h e(1)] C10_empty_signature_panics [OF k h e(2)] k e
  show ?thesis by simp
qed

end
